theory Spec2Isabelle
  imports Complex_Main "HOL-Library.Multiset" "HOL-Library.Sublist" "HOL-Library.AList"
begin

section \<open>Python values, exceptions and the log\<close>

text \<open>
  The exception classes that the modelled code raises, catches or lets pass. Messages are
  dropped; the class is what every \<open>except\<close> clause of the source looks at.
  Python floats are idealised as \<^typ>\<open>real\<close>, Python ints are \<^typ>\<open>int\<close>.
\<close>

datatype error =
    TypeError | ValueError | IOError | NotImplementedError | RuntimeError
  | KeyError | IndexError | AttributeError | AssertionError
  | NoSectionError | NoOptionError | UnicodeDecodeError | ParseError

text \<open>
  \<open>log.warn\<close> and \<open>log.error\<close> calls are recorded as the format string with its
  arguments, in call order, in one log that is threaded through every function. The
  \<open>log.debug\<close> and \<open>log.info\<close> calls are left out.
\<close>

datatype level = WARN | ERROR

datatype logarg = AStr string | AInt int | AReal real | AErr error

type_synonym logentry = "level \<times> string \<times> logarg list"

type_synonym log = "logentry list"

definition getitem :: "('k \<times> 'v) list \<Rightarrow> 'k \<Rightarrow> error + 'v" where
  \<comment> \<open>\<open>d[k]\<close> on a dict: a missing key raises KeyError.\<close>
  "getitem d k = (case map_of d k of None \<Rightarrow> Inl KeyError | Some v \<Rightarrow> Inr v)"

section \<open>External collaborators\<close>

text \<open>
  \<open>parse_path\<close> returns a dict with the keys below; \<open>DataSet.__init__\<close> adds the key
  \<open>'type'\<close>, which is absent (\<open>None\<close>) in a freshly parsed path.
\<close>

record storage =
  orig :: string
  full :: string
  path :: string
  dname :: string
  fname :: string
  ext :: string
  stype :: "string option"

text \<open>
  A \<open>RawConfigParser\<close> after reading: sections, each with its options and their raw text.
\<close>

type_synonym config = "(string \<times> (string \<times> string) list) list"

text \<open>
  One \<open>commonparam:axis\<close> element as \<open>_parse_imageprops\<close> reads it: its attributes,
  and what \<open>tft\<close> and \<open>tfi\<close> give (or raise) for its two children.
\<close>

record axis =
  attrib :: "(string \<times> string) list"
  paramName :: "error + string"
  maxSize :: "error + int"

text \<open>
  Everything the code obtains from outside this repository is a field of the environment:
  the path helpers of \<open>imcflibs\<close>, the conversion of text by the builtin \<open>int\<close>, and
  what the file system and the file-format libraries deliver for a given path:
  \<^item> \<open>read_utf16\<close>: \<open>codecs.open(path, "r", "utf16")\<close> and reading it;
  \<^item> \<open>ole_openstream\<close>: \<open>olefile.OleFileIO(path)\<close>, \<open>openstream([name])\<close> and \<open>read()\<close>;
  \<^item> \<open>decode_utf16\<close>: \<open>codecs.decode(bytes, "utf16")\<close>, \<open>None\<close> for UnicodeDecodeError;
  \<^item> \<open>readfp\<close>: \<open>RawConfigParser.readfp\<close> of a text into the parser's current table;
  \<^item> \<open>read_bytes\<close>: \<open>open(path, "rb")\<close> and the bytes of the file;
  \<^item> \<open>etree_frameprops\<close>: \<open>etree.fromstring\<close> of a fragment, then the outcomes of \<open>tfi\<close> for
    \<open>base:width\<close>, \<open>base:height\<close>, \<open>base:bitCounts\<close> under \<open>commonframe:imageDefinition\<close>;
  \<^item> \<open>etree_axes\<close>: \<open>etree.fromstring\<close> of a fragment, then the \<open>commonparam:axis\<close> elements
    under \<open>commonimage:acquisition/commonimage:imagingParam\<close>.
\<close>

record env =
  exists :: "string \<Rightarrow> bool"
  parse_path :: "string \<Rightarrow> storage"
  strip_prefix :: "string \<Rightarrow> string \<Rightarrow> string"
  int_of_text :: "string \<Rightarrow> int option"
  read_utf16 :: "string \<Rightarrow> error + string"
  ole_openstream :: "string \<Rightarrow> string \<Rightarrow> error + string"
  decode_utf16 :: "string \<Rightarrow> string option"
  readfp :: "string \<Rightarrow> config \<Rightarrow> error + config"
  read_bytes :: "string \<Rightarrow> error + string"
  etree_frameprops :: "string \<Rightarrow> error + ((error + int) \<times> (error + int) \<times> (error + int))"
  etree_axes :: "string \<Rightarrow> error + axis list"

section \<open>dataset.py: DataSet\<close>

datatype supval = SInt int | SStr string | STileno int int "int option"

record dataset =
  ds_type :: string
  storage :: storage
  supplement :: "(string \<times> supval) list"

definition DataSet_init :: "env \<Rightarrow> string \<Rightarrow> string \<Rightarrow> string \<Rightarrow> error + dataset" where
  "DataSet_init e ds_type' st_type st_path =
     (if ds_type' \<notin> set [''mosaic'', ''stack'', ''single''] then Inl TypeError
      else if st_type \<notin> set [''single'', ''tree'', ''sequence''] then Inl TypeError
      else let st = (parse_path e st_path)\<lparr>stype := Some st_type\<rparr>
           in if st_type = ''single'' \<and> fname st = '''' then Inl TypeError
              else Inr \<lparr>ds_type = ds_type', storage = st, supplement = []\<rparr>)"

section \<open>dataset.py: ImageData and ImageDataOlympus\<close>

text \<open>
  \<open>str.replace(old, new)\<close>: every non-overlapping occurrence of \<open>old\<close>, from the left; an
  empty \<open>old\<close> matches before every character and at the end.
\<close>

function py_replace :: "string \<Rightarrow> string \<Rightarrow> string \<Rightarrow> string" where
  "py_replace old new s =
     (if old = [] then new @ concat (map (\<lambda>c. c # new) s)
      else if s = [] then []
      else if prefix old s then new @ py_replace old new (drop (length old) s)
      else hd s # py_replace old new (tl s))"
  by pat_completeness auto
termination
  by (relation "measure (\<lambda>(old, new, s). length s)") auto

declare py_replace.simps [simp del]

definition validate_filepath :: "env \<Rightarrow> storage \<Rightarrow> error + storage" where
  "validate_filepath e st =
     (let ext' = ext st;
          fpath = (if \<not> exists e (full st)
                   then parse_path e (py_replace ext' (''_01'' @ ext') (orig st))
                   else st)
      in if \<not> exists e (full fpath) then Inl IOError else Inr fpath)"

text \<open>
  The class hierarchy below \<open>ImageData\<close> is flattened into one record; \<open>cls\<close> is the class
  of the object, which selects the overriding \<open>_parse_dimensions\<close>. \<open>u_dim\<close> is \<open>_dim\<close> and
  \<open>u_xml\<close> is \<open>_xml\<close> (\<open>None\<close> as in the source). \<open>parse_count\<close> is not in the source: it
  counts the calls of \<open>_parse_dimensions\<close> on this object.
\<close>

datatype image_class = ImageDataOIF | ImageDataOIB | ImageDataOIR

type_synonym dims = "(string \<times> int) list"

record image = dataset +
  cls :: image_class
  u_dim :: "dims option"
  position_stage :: "(real option \<times> real option) option"
  position_relative :: "real list option"
  parser :: "config option"
  u_xml :: "(string \<times> string) list option"
  parse_count :: nat

definition ImageDataOlympus_init :: "env \<Rightarrow> image_class \<Rightarrow> string \<Rightarrow> error + image" where
  \<comment> \<open>\<open>ImageData.__init__\<close> sets \<open>_dim\<close> to zeros; \<open>ImageDataOlympus.__init__\<close> overrides it by \<open>None\<close>.\<close>
  "ImageDataOlympus_init e c st_path =
     (case DataSet_init e ''stack'' ''tree'' st_path of
        Inl err \<Rightarrow> Inl err
      | Inr d \<Rightarrow>
          (case validate_filepath e (storage d) of
             Inl err \<Rightarrow> Inl err
           | Inr st \<Rightarrow>
               Inr \<lparr>ds_type = ds_type d, storage = st, supplement = supplement d,
                    cls = c, u_dim = None, position_stage = None, position_relative = None,
                    parser = None, u_xml = None, parse_count = 0\<rparr>))"

definition set_stagecoords :: "real option \<times> real option \<Rightarrow> image \<Rightarrow> image" where
  "set_stagecoords coords img = img\<lparr>position_stage := Some coords\<rparr>"

definition set_tilenumbers :: "int \<Rightarrow> int \<Rightarrow> int option \<Rightarrow> image \<Rightarrow> image" where
  "set_tilenumbers tileno_x tileno_y tileno_z img =
     img\<lparr>supplement := AList.update ''tileno'' (STileno tileno_x tileno_y tileno_z) (supplement img)\<rparr>"

subsection \<open>ImageDataOlympus._parse_dimensions\<close>

definition parser_get :: "config \<Rightarrow> string \<Rightarrow> string \<Rightarrow> error + string" where
  \<comment> \<open>\<open>RawConfigParser.get(section, option)\<close>\<close>
  "parser_get p sec opt =
     (case map_of p sec of
        None \<Rightarrow> Inl NoSectionError
      | Some s \<Rightarrow> (case map_of s opt of None \<Rightarrow> Inl NoOptionError | Some v \<Rightarrow> Inr v))"

datatype pyval = PStr string | PInt int

definition py_int :: "env \<Rightarrow> pyval \<Rightarrow> error + int" where
  \<comment> \<open>the builtin \<open>int(v)\<close>\<close>
  "py_int e v =
     (case v of
        PInt n \<Rightarrow> Inr n
      | PStr s \<Rightarrow> (case int_of_text e s of None \<Rightarrow> Inl ValueError | Some n \<Rightarrow> Inr n))"

definition ebind :: "error + 'a \<Rightarrow> ('a \<Rightarrow> error + 'b) \<Rightarrow> error + 'b" where
  "ebind m f = (case m of Inl err \<Rightarrow> Inl err | Inr x \<Rightarrow> f x)"

definition get_all :: "config \<Rightarrow> error + (string \<times> string \<times> string \<times> string \<times> string \<times> string \<times> string \<times> string \<times> string)" where
  \<comment> \<open>the nine \<open>get\<close> calls of the \<open>try\<close> block, in order\<close>
  "get_all p =
     ebind (parser_get p ''Reference Image Parameter'' ''ValidBitCounts'') (\<lambda>dim_b.
     ebind (parser_get p ''Reference Image Parameter'' ''ImageHeight'') (\<lambda>dim_x.
     ebind (parser_get p ''Reference Image Parameter'' ''ImageWidth'') (\<lambda>dim_y.
     ebind (parser_get p ''Axis 3 Parameters Common'' ''MaxSize'') (\<lambda>dim_z.
     ebind (parser_get p ''Axis 3 Parameters Common'' ''AxisName'') (\<lambda>axis_z.
     ebind (parser_get p ''Axis 2 Parameters Common'' ''MaxSize'') (\<lambda>dim_c.
     ebind (parser_get p ''Axis 2 Parameters Common'' ''AxisName'') (\<lambda>axis_c.
     ebind (parser_get p ''Axis 4 Parameters Common'' ''MaxSize'') (\<lambda>dim_t.
     ebind (parser_get p ''Axis 4 Parameters Common'' ''AxisName'') (\<lambda>axis_t.
     Inr (dim_b, dim_x, dim_y, dim_z, axis_z, dim_c, axis_c, dim_t, axis_t))))))))))"

definition check_axis :: "string \<Rightarrow> string \<Rightarrow> string \<Rightarrow> string \<Rightarrow> log \<Rightarrow> pyval \<times> log" where
  \<comment> \<open>\<open>if not axis == sentinel: log.warn(msg); dim = 0\<close>\<close>
  "check_axis axis_name sentinel msg dim_v lg =
     (if \<not> axis_name = sentinel then (PInt 0, lg @ [(WARN, msg, [])]) else (PStr dim_v, lg))"

definition parse_dimensions_Olympus :: "env \<Rightarrow> image \<Rightarrow> log \<Rightarrow> error option \<times> image \<times> log" where
  \<open>parse_dimensions_Olympus e img lg =
     (case parser img of
        None \<Rightarrow> (Some AttributeError, img, lg)
      | Some p \<Rightarrow>
          (case get_all p of
             Inl err \<Rightarrow> (Some (if err = NoOptionError then ValueError else err), img, lg)
           | Inr (dim_b, dim_x, dim_y, dim_z, axis_z, dim_c, axis_c, dim_t, axis_t) \<Rightarrow>
               (let (dim_z', lg1) =
                      check_axis axis_z ''"Z"'' ''WARNING: couldn't find Z axis in metadata!'' dim_z lg;
                    (dim_c', lg2) =
                      check_axis axis_c ''"Ch"'' ''WARNING: couldn't find channels in metadata!'' dim_c lg1;
                    (dim_t', lg3) =
                      check_axis axis_t ''"T"'' ''WARNING: couldn't find timepoints in metadata!'' dim_t lg2
                in case
                     ebind (py_int e (PStr dim_b)) (\<lambda>b.
                     ebind (py_int e dim_c') (\<lambda>c.
                     ebind (py_int e dim_t') (\<lambda>t.
                     ebind (py_int e (PStr dim_x)) (\<lambda>x.
                     ebind (py_int e (PStr dim_y)) (\<lambda>y.
                     ebind (py_int e dim_z') (\<lambda>z.
                     Inr [(''B'', b), (''C'', c), (''T'', t), (''X'', x), (''Y'', y), (''Z'', z)]))))))
                   of
                     Inl err \<Rightarrow> (Some err, img, lg3)
                   | Inr d \<Rightarrow> (None, img\<lparr>u_dim := Some d\<rparr>, lg3))))\<close>

subsection \<open>ImageDataOIF and ImageDataOIB\<close>

definition setup_parser_OIF :: "env \<Rightarrow> image \<Rightarrow> error + config" where
  "setup_parser_OIF e img =
     (case read_utf16 e (full (storage img)) of
        Inl err \<Rightarrow> Inl err
      | Inr conv \<Rightarrow> readfp e conv [])"

definition ImageDataOIF_init :: "env \<Rightarrow> string \<Rightarrow> log \<Rightarrow> (error + image) \<times> log" where
  "ImageDataOIF_init e st_path lg =
     (case ImageDataOlympus_init e ImageDataOIF st_path of
        Inl err \<Rightarrow> (Inl err, lg)
      | Inr img \<Rightarrow>
          (case setup_parser_OIF e img of
             Inl err \<Rightarrow> (Inl err, lg)
           | Inr p \<Rightarrow> (Inr (img\<lparr>parser := Some p, u_dim := None\<rparr>), lg)))"

definition setup_parser_OIB :: "env \<Rightarrow> image \<Rightarrow> log \<Rightarrow> (error + config) \<times> log" where
  \<comment> \<open>\<open>raise UnicodeDecodeError(msg)\<close> with a single argument is itself a TypeError.\<close>
  "setup_parser_OIB e img lg =
     (let oibinfo = ''OibInfo.txt''; expected_version = ''2.0.0.0''; oib = full (storage img)
      in case ole_openstream e oib oibinfo of
           Inl err \<Rightarrow> (Inl err, lg)
         | Inr bytes \<Rightarrow>
             (case decode_utf16 e bytes of
                None \<Rightarrow> (Inl TypeError, lg)
              | Some conv \<Rightarrow>
                  (case readfp e conv [] of
                     Inl err \<Rightarrow> (Inl err, lg)
                   | Inr p \<Rightarrow>
                       (case parser_get p ''OibSaveInfo'' ''Version'' of
                          Inl err \<Rightarrow> (Inl err, lg)
                        | Inr oibver \<Rightarrow>
                            (case parser_get p ''OibSaveInfo'' ''MainFileName'' of
                               Inl err \<Rightarrow> (Inl err, lg)
                             | Inr mainfile \<Rightarrow>
                                 (let lg1 = (if oibver \<noteq> expected_version
                                             then lg @ [(WARN, ''WARNING: OIB has unknown format version %s!'',
                                                         [AStr oibver])]
                                             else lg)
                                  in case ole_openstream e oib mainfile of
                                       Inl err \<Rightarrow> (Inl err, lg1)
                                     | Inr bytes2 \<Rightarrow>
                                         (case decode_utf16 e bytes2 of
                                            None \<Rightarrow> (Inl UnicodeDecodeError, lg1)
                                          | Some conv2 \<Rightarrow>
                                              (case readfp e conv2 p of
                                                 Inl err \<Rightarrow> (Inl err, lg1)
                                               | Inr p2 \<Rightarrow> (Inr p2, lg1)))))))))"

definition ImageDataOIB_init :: "env \<Rightarrow> string \<Rightarrow> log \<Rightarrow> (error + image) \<times> log" where
  "ImageDataOIB_init e st_path lg =
     (case ImageDataOlympus_init e ImageDataOIB st_path of
        Inl err \<Rightarrow> (Inl err, lg)
      | Inr img \<Rightarrow>
          (case setup_parser_OIB e img lg of
             (Inl err, lg1) \<Rightarrow> (Inl err, lg1)
           | (Inr p, lg1) \<Rightarrow> (Inr (img\<lparr>parser := Some p\<rparr>), lg1)))"

subsection \<open>ImageDataOIR: scanning the file for XML sections\<close>

definition printable :: "char \<Rightarrow> bool" where
  \<comment> \<open>\<open>char in string.printable\<close>: the 95 characters from space to tilde, and
      tab, newline, vertical tab, form feed, carriage return\<close>
  "printable c =
     (let n = (of_char c :: nat) in (32 \<le> n \<and> n \<le> 126) \<or> (9 \<le> n \<and> n \<le> 13))"

fun contains :: "string \<Rightarrow> string \<Rightarrow> bool" where
  \<comment> \<open>\<open>sub in s\<close> on strings\<close>
  "contains sub [] = (sub = [])"
| "contains sub (c # cs) = (prefix sub (c # cs) \<or> contains sub cs)"

fun rfind :: "char \<Rightarrow> string \<Rightarrow> int" where
  \<comment> \<open>\<open>s.rfind(c)\<close> for a single character: the highest index, or -1\<close>
  "rfind c [] = - 1"
| "rfind c (x # xs) =
     (let r = rfind c xs in if 0 \<le> r then r + 1 else if x = c then 0 else - 1)"

definition search_tags :: "string list" where
  "search_tags = [''lsmframe:frameProperties'', ''lsmimage:imageProperties'']"

definition chunk_size :: nat where
  \<comment> \<open>the local variable \<open>size\<close>: 1 MiB\<close>
  "chunk_size = 1048576"

type_synonym found = "(string \<times> string) list"

text \<open>
  The innermost loop \<open>for tag in search_tags\<close>; the flag says that the \<open>return found\<close> was
  taken.
\<close>

fun scan_tags :: "string list \<Rightarrow> string \<Rightarrow> found \<Rightarrow> bool \<times> found" where
  "scan_tags [] collected fnd = (False, fnd)"
| "scan_tags (tag # tags) collected fnd =
     (if contains (CHR ''<'' # tag) collected
      then (let xml_close = rfind (CHR ''>'') collected + 1;
                fnd' = AList.update tag (take (nat xml_close) collected) fnd
            in if length fnd' = length search_tags then (True, fnd')
               else scan_tags tags collected fnd')
      else scan_tags tags collected fnd)"

text \<open>
  The loop \<open>for char in chunk\<close>: \<open>Inl\<close> is the \<open>return found\<close>, \<open>Inr\<close> the state when the chunk
  is used up.
\<close>

fun scan_chunk :: "nat \<Rightarrow> string \<Rightarrow> string \<Rightarrow> found \<Rightarrow> found + (string \<times> found)" where
  "scan_chunk min_len [] collected fnd = Inr (collected, fnd)"
| "scan_chunk min_len (char # chunk) collected fnd =
     (if printable char then scan_chunk min_len chunk (collected @ [char]) fnd
      else if length collected < min_len \<or> \<not> contains ''<?xml'' collected
      then scan_chunk min_len chunk [] fnd
      else (case scan_tags search_tags collected fnd of
              (True, fnd') \<Rightarrow> Inl fnd'
            | (False, fnd') \<Rightarrow> scan_chunk min_len chunk [] fnd'))"

text \<open>
  The loop \<open>while True\<close> over the unread rest of the file: \<open>fin.read(size)\<close> takes the next
  \<open>size\<close> bytes, and the empty chunk at the end of the file raises ValueError.
\<close>

function read_loop :: "nat \<Rightarrow> string \<Rightarrow> string \<Rightarrow> found \<Rightarrow> error + found" where
  "read_loop min_len rest collected fnd =
     (let chunk = take chunk_size rest
      in if chunk = [] then Inl ValueError
         else (case scan_chunk min_len chunk collected fnd of
                 Inl fnd' \<Rightarrow> Inr fnd'
               | Inr (collected', fnd') \<Rightarrow>
                   read_loop min_len (drop chunk_size rest) collected' fnd'))"
  by pat_completeness auto
termination
  by (relation "measure (\<lambda>(min_len, rest, collected, fnd). length rest)")
     (auto simp: chunk_size_def)

declare read_loop.simps [simp del]

definition get_xml_sections :: "env \<Rightarrow> image \<Rightarrow> nat \<Rightarrow> error + found" where
  "get_xml_sections e img min_len =
     (case read_bytes e (full (storage img)) of
        Inl err \<Rightarrow> Inl err
      | Inr content \<Rightarrow> read_loop min_len content [] [])"

definition xml :: "env \<Rightarrow> image \<Rightarrow> (error + found) \<times> image" where
  \<comment> \<open>the property \<open>xml\<close>; \<open>_get_xml_sections\<close> returns a dict or raises, so the second
      test for \<open>None\<close> never holds\<close>
  "xml e img =
     (case u_xml img of
        Some x \<Rightarrow> (Inr x, img)
      | None \<Rightarrow>
          (case get_xml_sections e img 100 of
             Inl err \<Rightarrow> (Inl err, img)
           | Inr f \<Rightarrow> (Inr f, img\<lparr>u_xml := Some f\<rparr>)))"

subsection \<open>ImageDataOIR: dimensions from the XML sections\<close>


definition dim_setitem :: "string \<Rightarrow> int \<Rightarrow> image \<Rightarrow> error + image" where
  \<comment> \<open>\<open>self._dim[k] = v\<close>; item assignment on \<open>None\<close> is a TypeError\<close>
  "dim_setitem k v img =
     (case u_dim img of
        None \<Rightarrow> Inl TypeError
      | Some d \<Rightarrow> Inr (img\<lparr>u_dim := Some (AList.update k v d)\<rparr>))"

definition parse_frameprops :: "env \<Rightarrow> string \<Rightarrow> image \<Rightarrow> error option \<times> image" where
  "parse_frameprops e x img =
     (case etree_frameprops e x of
        Inl err \<Rightarrow> (Some err, img)
      | Inr (width, height, bitCounts) \<Rightarrow>
          (case ebind width (\<lambda>v. dim_setitem ''X'' v img) of
             Inl err \<Rightarrow> (Some err, img)
           | Inr img1 \<Rightarrow>
               (case ebind height (\<lambda>v. dim_setitem ''Y'' v img1) of
                  Inl err \<Rightarrow> (Some err, img1)
                | Inr img2 \<Rightarrow>
                    (case ebind bitCounts (\<lambda>v. dim_setitem ''B'' v img2) of
                       Inl err \<Rightarrow> (Some err, img2)
                     | Inr img3 \<Rightarrow> (None, img3)))))"

definition xsi :: string where
  "xsi = ''{http://www.w3.org/2001/XMLSchema-instance}''"

text \<open>
  The loop over the axes in \<open>_parse_imageprops\<close>, returning \<open>dim_z\<close> (with its default 1).
\<close>

fun scan_axes :: "axis list \<Rightarrow> error + int" where
  "scan_axes [] = Inr 1"
| "scan_axes (a # axes) =
     (if map_of (attrib a) (xsi @ ''type'') = Some ''commonparam:ZAxisParam''
         \<and> map_of (attrib a) ''enable'' = Some ''true''
      then (case paramName a of
              Inl err \<Rightarrow> Inl err
            | Inr name \<Rightarrow> if name = ''Start End'' then maxSize a else scan_axes axes)
      else scan_axes axes)"

definition parse_imageprops :: "env \<Rightarrow> string \<Rightarrow> image \<Rightarrow> error option \<times> image" where
  "parse_imageprops e x img =
     (case etree_axes e x of
        Inl err \<Rightarrow> (Some err, img)
      | Inr ci_axis \<Rightarrow>
          (case ebind (scan_axes ci_axis) (\<lambda>dim_z. dim_setitem ''Z'' dim_z img) of
             Inl err \<Rightarrow> (Some err, img)
           | Inr img1 \<Rightarrow> (None, img1)))"

definition parse_dimensions_OIR_try :: "env \<Rightarrow> image \<Rightarrow> error option \<times> image" where
  \<comment> \<open>the body of the \<open>try\<close> block\<close>
  "parse_dimensions_OIR_try e img =
     (case xml e img of
        (Inl err, img1) \<Rightarrow> (Some err, img1)
      | (Inr x1, img1) \<Rightarrow>
          (case getitem x1 ''lsmframe:frameProperties'' of
             Inl err \<Rightarrow> (Some err, img1)
           | Inr fp \<Rightarrow>
               (case parse_frameprops e fp img1 of
                  (Some err, img2) \<Rightarrow> (Some err, img2)
                | (None, img2) \<Rightarrow>
                    (case xml e img2 of
                       (Inl err, img3) \<Rightarrow> (Some err, img3)
                     | (Inr x2, img3) \<Rightarrow>
                         (case getitem x2 ''lsmimage:imageProperties'' of
                            Inl err \<Rightarrow> (Some err, img3)
                          | Inr ip \<Rightarrow> parse_imageprops e ip img3)))))"

definition parse_dimensions_OIR :: "env \<Rightarrow> image \<Rightarrow> log \<Rightarrow> error option \<times> image \<times> log" where
  "parse_dimensions_OIR e img lg =
     (let img0 = img\<lparr>u_dim := Some [(''X'', 0), (''Y'', 0), (''Z'', 0), (''C'', 0), (''B'', 0), (''T'', 0)]\<rparr>
      in case parse_dimensions_OIR_try e img0 of
           (Some err, img1) \<Rightarrow>
             (Some err, img1,
              lg @ [(ERROR, ''Error parsing dimensions from %s!'', [AStr (full (storage img1))])])
         | (None, img1) \<Rightarrow> (None, img1, lg))"

subsection \<open>Lazy dimensions and the relative position\<close>

definition parse_dimensions :: "env \<Rightarrow> image \<Rightarrow> log \<Rightarrow> error option \<times> image \<times> log" where
  \<comment> \<open>\<open>self._parse_dimensions()\<close>: the method of the object's class; the call is counted\<close>
  "parse_dimensions e img lg =
     (let img' = img\<lparr>parse_count := Suc (parse_count img)\<rparr>
      in case cls img of
           ImageDataOIR \<Rightarrow> parse_dimensions_OIR e img' lg
         | _ \<Rightarrow> parse_dimensions_Olympus e img' lg)"

definition get_dimensions :: "env \<Rightarrow> image \<Rightarrow> log \<Rightarrow> (error + dims option) \<times> image \<times> log" where
  "get_dimensions e img lg =
     (case u_dim img of
        None \<Rightarrow>
          (case parse_dimensions e img lg of
             (Some err, img', lg') \<Rightarrow> (Inl err, img', lg')
           | (None, img', lg') \<Rightarrow> (Inr (u_dim img'), img', lg'))
      | Some d \<Rightarrow> (Inr (Some d), img, lg))"

definition dims_item :: "dims option \<Rightarrow> string \<Rightarrow> error + int" where
  \<comment> \<open>\<open>d[k]\<close> on the value returned by \<open>get_dimensions\<close>; subscripting \<open>None\<close> is a TypeError\<close>
  "dims_item d k = (case d of None \<Rightarrow> Inl TypeError | Some d' \<Rightarrow> getitem d' k)"

definition tileno_xy :: "(string \<times> supval) list \<Rightarrow> error + (int \<times> int)" where
  \<comment> \<open>\<open>supplement['tileno'][0]\<close> and \<open>supplement['tileno'][1]\<close>; a string there fails at the
      index or at the product, an int at the index\<close>
  "tileno_xy supp =
     (case getitem supp ''tileno'' of
        Inl err \<Rightarrow> Inl err
      | Inr (STileno tileno_x tileno_y tileno_z) \<Rightarrow> Inr (tileno_x, tileno_y)
      | Inr (SStr s) \<Rightarrow> if length s < 2 then Inl IndexError else Inl TypeError
      | Inr (SInt n) \<Rightarrow> Inl TypeError)"

definition set_relpos :: "env \<Rightarrow> real \<Rightarrow> image \<Rightarrow> log \<Rightarrow> error option \<times> image \<times> log" where
  "set_relpos e overlap' img lg =
     (let ratio = (100 - overlap') / 100
      in case get_dimensions e img lg of
           (Inl err, img1, lg1) \<Rightarrow> (Some err, img1, lg1)
         | (Inr d1, img1, lg1) \<Rightarrow>
             (case dims_item d1 ''X'' of
                Inl err \<Rightarrow> (Some err, img1, lg1)
              | Inr size_x \<Rightarrow>
                  (case get_dimensions e img1 lg1 of
                     (Inl err, img2, lg2) \<Rightarrow> (Some err, img2, lg2)
                   | (Inr d2, img2, lg2) \<Rightarrow>
                       (case dims_item d2 ''Y'' of
                          Inl err \<Rightarrow> (Some err, img2, lg2)
                        | Inr size_y \<Rightarrow>
                            (case tileno_xy (supplement img2) of
                               Inl err \<Rightarrow> (Some err, img2, lg2)
                             | Inr (tileno_x, tileno_y) \<Rightarrow>
                                 (let pos_x = real_of_int size_x * ratio * real_of_int tileno_x;
                                      pos_y = real_of_int size_y * ratio * real_of_int tileno_y
                                  in (None, img2\<lparr>position_relative := Some [pos_x, pos_y]\<rparr>, lg2)))))))"

section \<open>dataset.py: MosaicData and MosaicDataCuboid\<close>

record mosaic = dataset +
  subvol :: "image list"
  dim :: "int \<times> int \<times> int"
  overlap :: real
  overlap_units :: string

definition MosaicData_init :: "env \<Rightarrow> string \<Rightarrow> string \<Rightarrow> error + dataset" where
  "MosaicData_init e st_type st_path = DataSet_init e ''mosaic'' st_type st_path"

definition add_subvol :: "image \<Rightarrow> mosaic \<Rightarrow> mosaic" where
  "add_subvol img_ds m = m\<lparr>subvol := subvol m @ [img_ds]\<rparr>"

type_synonym tile = "string \<times> real list"

definition tile_coords :: "real list option \<Rightarrow> error + real list" where
  \<comment> \<open>\<open>[pos[0], pos[1], pos[2]]\<close>, and on IndexError \<open>[pos[0], pos[1]]\<close>, whose own IndexError
      is not caught; subscripting \<open>None\<close> is a TypeError\<close>
  "tile_coords pos =
     (case pos of
        None \<Rightarrow> Inl TypeError
      | Some (a # b # c # rest) \<Rightarrow> Inr [a, b, c]
      | Some [a, b] \<Rightarrow> Inr [a, b]
      | Some _ \<Rightarrow> Inl IndexError)"

fun tiles_of :: "env \<Rightarrow> string \<Rightarrow> image list \<Rightarrow> error + tile list" where
  \<comment> \<open>the loop \<open>for vol in self.subvol\<close>\<close>
  "tiles_of e base [] = Inr []"
| "tiles_of e base (vol # vols) =
     (let fname' = map (\<lambda>c. if c = CHR 0x5C then CHR ''/'' else c)
                       (strip_prefix e (full (storage vol)) base)
      in case tile_coords (position_relative vol) of
           Inl err \<Rightarrow> Inl err
         | Inr coords \<Rightarrow>
             (case tiles_of e base vols of
                Inl err \<Rightarrow> Inl err
              | Inr tiles \<Rightarrow> Inr ((fname', coords) # tiles)))"

definition sorted_reverse :: "('a \<Rightarrow> real) \<Rightarrow> 'a list \<Rightarrow> 'a list" where
  \<comment> \<open>\<open>sorted(xs, key=key, reverse=True)\<close>: descending by key, and stable, elements with
      equal keys keep their order\<close>
  "sorted_reverse key xs = sort_key (\<lambda>x. - key x) xs"

definition files_and_coords :: "env \<Rightarrow> mosaic \<Rightarrow> bool \<Rightarrow> error + tile list" where
  "files_and_coords e m sort' =
     (case tiles_of e (path (storage m)) (subvol m) of
        Inl err \<Rightarrow> Inl err
      | Inr tiles \<Rightarrow>
          Inr (if sort'
               then sorted_reverse (\<lambda>x. snd x ! 1) (sorted_reverse (\<lambda>x. snd x ! 0) tiles)
               else tiles))"

definition MosaicDataCuboid_init :: "env \<Rightarrow> string \<Rightarrow> string \<Rightarrow> int \<times> int \<times> int \<Rightarrow> error + mosaic" where
  "MosaicDataCuboid_init e st_type st_path dim' =
     (case MosaicData_init e st_type st_path of
        Inl err \<Rightarrow> Inl err
      | Inr d \<Rightarrow>
          Inr \<lparr>ds_type = ds_type d, storage = storage d, supplement = supplement d,
               subvol = [], dim = dim', overlap = 0, overlap_units = ''px''\<rparr>)"

definition set_overlap :: "real \<Rightarrow> string \<Rightarrow> mosaic \<Rightarrow> log \<Rightarrow> error + (mosaic \<times> log)" where
  \<open>set_overlap v units m lg =
     (if units \<notin> set [''px'', ''pct'', ''um'', ''nm'', ''mm''] then Inl TypeError
      else let lg' = (if units = ''pct'' \<and> v \<le> 5 then lg @ [(WARN, ''Low overlap %.1f%%!'', [AReal v])]
                      else if units \<noteq> ''pct''
                      then lg @ [(WARN, ''Minimum overlap check not implemented for "%s"!'', [AStr units])]
                      else lg)
           in Inr (m\<lparr>overlap := v, overlap_units := units\<rparr>, lg'))\<close>

definition get_overlap :: "string \<Rightarrow> mosaic \<Rightarrow> error + real" where
  "get_overlap units m =
     (if units \<notin> set [''pct''] then Inl TypeError
      else if units \<noteq> overlap_units m then Inl NotImplementedError
      else Inr (overlap m))"

section \<open>experiment.py\<close>

record mosaic_experiment =
  infile :: storage
  datasets :: "mosaic list"
  exp_supplement :: "(string \<times> supval) list"

definition add_dataset :: "mosaic \<Rightarrow> 'a mosaic_experiment_scheme \<Rightarrow> 'a mosaic_experiment_scheme" where
  "add_dataset dset ex = ex\<lparr>datasets := datasets ex @ [dset]\<rparr>"

section \<open>fluoview.py: FluoViewMosaic\<close>

text \<open>
  The XML subtrees are given by what the accessors \<open>tft\<close>, \<open>tfi\<close> and \<open>tff\<close> of the source
  deliver on them: the converted value, or the exception of a missing element or of a
  text that does not convert.
\<close>

record imageinfo =
  Filename :: "error + string"
  XPos :: "error + real"
  YPos :: "error + real"
  Xno :: "error + int"
  Yno :: "error + int"
  No :: "error + int"

record mosaictree =
  attrib_No :: "error + int"
  XScanDirection :: "error + string"
  YScanDirection :: "error + string"
  XImages :: "error + int"
  YImages :: "error + int"
  IndexRatio :: "error + real"
  ImageInfo :: "imageinfo list"

definition supplement_setitem :: "string \<Rightarrow> supval \<Rightarrow> 'a dataset_scheme \<Rightarrow> 'a dataset_scheme" where
  "supplement_setitem k v d = d\<lparr>supplement := AList.update k v (supplement d)\<rparr>"

definition subvol_try ::
  "env \<Rightarrow> string \<Rightarrow> image_class \<Rightarrow> imageinfo \<Rightarrow> string \<Rightarrow> mosaic \<Rightarrow> log \<Rightarrow> (error + mosaic) \<times> log" where
  \<comment> \<open>the body of the \<open>try\<close> block inside the loop over the \<open>ImageInfo\<close> elements\<close>
  "subvol_try e base subvol_reader img subvol_fname mosaic_ds lg =
     (case (if subvol_reader = ImageDataOIF then ImageDataOIF_init e (base @ subvol_fname) lg
            else ImageDataOIB_init e (base @ subvol_fname) lg) of
        (Inl err, lg1) \<Rightarrow> (Inl err, lg1)
      | (Inr subvol_ds, lg1) \<Rightarrow>
          (case ebind (XPos img) (\<lambda>x. ebind (YPos img) (\<lambda>y.
                ebind (Xno img) (\<lambda>xno. ebind (Yno img) (\<lambda>yno.
                ebind (get_overlap ''pct'' mosaic_ds) (\<lambda>ov.
                Inr (set_tilenumbers xno yno None (set_stagecoords (Some x, Some y) subvol_ds), ov)))))) of
             Inl err \<Rightarrow> (Inl err, lg1)
           | Inr (ds1, ov) \<Rightarrow>
               (case set_relpos e ov ds1 lg1 of
                  (Some err, ds2, lg2) \<Rightarrow> (Inl err, lg2)
                | (None, ds2, lg2) \<Rightarrow>
                    (case No img of
                       Inl err \<Rightarrow> (Inl err, lg2)
                     | Inr n \<Rightarrow>
                         (Inr (add_subvol (supplement_setitem ''index'' (SInt n) ds2) mosaic_ds), lg2)))))"

text \<open>
  The loop over the \<open>ImageInfo\<close> elements ends with the mosaic, or with \<open>mosaic_ds = None\<close>
  and the file name at which it was cancelled; any other exception leaves \<open>add_mosaic\<close>.
\<close>

datatype loop_result = Completed mosaic | Cancelled string

fun add_mosaic_loop :: "env \<Rightarrow> string \<Rightarrow> imageinfo list \<Rightarrow> mosaic \<Rightarrow> log \<Rightarrow> (error + loop_result) \<times> log" where
  "add_mosaic_loop e base [] mosaic_ds lg = (Inr (Completed mosaic_ds), lg)"
| "add_mosaic_loop e base (img # imgs) mosaic_ds lg =
     (case Filename img of
        Inl err \<Rightarrow> (Inl err, lg)
      | Inr subvol_fname \<Rightarrow>
          (let suffix = drop (length subvol_fname - 3) subvol_fname
           in if suffix \<noteq> ''oif'' \<and> suffix \<noteq> ''oib'' then (Inl IOError, lg)
              else (case subvol_try e base (if suffix = ''oif'' then ImageDataOIF else ImageDataOIB)
                           img subvol_fname mosaic_ds lg of
                      (Inl err, lg1) \<Rightarrow>
                        if err = IOError then (Inr (Cancelled subvol_fname), lg1) else (Inl err, lg1)
                    | (Inr mosaic_ds', lg1) \<Rightarrow> add_mosaic_loop e base imgs mosaic_ds' lg1)))"

definition add_mosaic_head ::
  "env \<Rightarrow> mosaictree \<Rightarrow> int \<Rightarrow> mosaic_experiment \<Rightarrow> log \<Rightarrow> error + (int \<times> mosaic \<times> log)" where
  \<comment> \<open>\<open>add_mosaic\<close> up to the loop: the index, the two assertions, the new
      \<open>MosaicDataCuboid\<close> with its overlap and index\<close>
  "add_mosaic_head e tree index ex lg =
     ebind (if index = - 1 then attrib_No tree else Inr index) (\<lambda>index'.
     ebind (XScanDirection tree) (\<lambda>xdir.
     if xdir \<noteq> ''LeftToRight'' then Inl AssertionError else
     ebind (YScanDirection tree) (\<lambda>ydir.
     if ydir \<noteq> ''TopToBottom'' then Inl AssertionError else
     ebind (XImages tree) (\<lambda>ximages.
     ebind (YImages tree) (\<lambda>yimages.
     ebind (MosaicDataCuboid_init e ''tree'' (orig (infile ex)) (ximages, yimages, 1)) (\<lambda>m0.
     ebind (IndexRatio tree) (\<lambda>ratio.
     ebind (set_overlap (100 - ratio) ''pct'' m0 lg) (\<lambda>(m1, lg1).
     Inr (index', supplement_setitem ''index'' (SInt index') m1, lg1)))))))))"

definition FluoViewMosaic_add_mosaic ::
  "env \<Rightarrow> mosaictree \<Rightarrow> int \<Rightarrow> mosaic_experiment \<Rightarrow> log \<Rightarrow> error option \<times> mosaic_experiment \<times> log" where
  "FluoViewMosaic_add_mosaic e tree index ex lg =
     (case add_mosaic_head e tree index ex lg of
        Inl err \<Rightarrow> (Some err, ex, lg)
      | Inr (index', mosaic_ds, lg1) \<Rightarrow>
          (case add_mosaic_loop e (path (infile ex)) (ImageInfo tree) mosaic_ds lg1 of
             (Inl err, lg2) \<Rightarrow> (Some err, ex, lg2)
           | (Inr (Completed mosaic_ds'), lg2) \<Rightarrow> (None, add_dataset mosaic_ds' ex, lg2)
           | (Inr (Cancelled subvol_fname), lg2) \<Rightarrow>
               (None, ex,
                lg2 @ [(WARN, ''Mosaic %s: incomplete subvolumes, SKIPPING!'', [AInt index']),
                       (WARN, ''First incomplete/missing subvolume: %s'', [AStr subvol_fname])])))"

fun FluoViewMosaic_add_mosaics ::
  "env \<Rightarrow> mosaictree list \<Rightarrow> mosaic_experiment \<Rightarrow> log \<Rightarrow> error option \<times> mosaic_experiment \<times> log" where
  \<comment> \<open>\<open>for tree in self.mosaictrees: self.add_mosaic(tree, -1)\<close>\<close>
  "FluoViewMosaic_add_mosaics e [] ex lg = (None, ex, lg)"
| "FluoViewMosaic_add_mosaics e (tree # trees) ex lg =
     (case FluoViewMosaic_add_mosaic e tree (- 1) ex lg of
        (Some err, ex1, lg1) \<Rightarrow> (Some err, ex1, lg1)
      | (None, ex1, lg1) \<Rightarrow> FluoViewMosaic_add_mosaics e trees ex1 lg1)"

section \<open>fluoview.py: FluoView3kMosaic\<close>










section \<open>Auxiliary notions\<close>

text \<open>
  What a step of the dimension parsers leaves as it is: dimensions that are set stay set,
  and the count of parser calls is the same.
\<close>

definition keeps :: "image \<Rightarrow> image \<Rightarrow> bool" where
  "keeps a b \<longleftrightarrow> (u_dim a \<noteq> None \<longrightarrow> u_dim b \<noteq> None) \<and> parse_count b = parse_count a"

text \<open>
  The maximal runs of printable characters of a byte string that a non-printable character
  ends, in their order; \<open>acc\<close> is the run under way. The run that only the end of the
  string ends is not among them; \<open>last_run\<close> is that run.
\<close>

fun runs_from :: "string \<Rightarrow> string \<Rightarrow> string list" where
  "runs_from acc [] = []"
| "runs_from acc (c # cs) =
     (if printable c then runs_from (acc @ [c]) cs else acc # runs_from [] cs)"

fun last_run :: "string \<Rightarrow> string \<Rightarrow> string" where
  "last_run acc [] = acc"
| "last_run acc (c # cs) = (if printable c then last_run (acc @ [c]) cs else last_run [] cs)"

definition terminated_runs :: "string \<Rightarrow> string list" where
  "terminated_runs content = runs_from [] content"

text \<open>
  A run is a candidate that is accepted for a tag; the fragment of a run is the run up to
  and with its last \<open>>\<close>.
\<close>

definition accepted :: "nat \<Rightarrow> string \<Rightarrow> string \<Rightarrow> bool" where
  "accepted min_len r tag \<longleftrightarrow>
     min_len \<le> length r \<and> contains ''<?xml'' r \<and> contains (CHR ''<'' # tag) r"

definition fragment :: "string \<Rightarrow> string" where
  "fragment r = take (nat (rfind (CHR ''>'') r + 1)) r"

text \<open>
  The scan as a pass over the runs: \<open>Inl\<close> is the return with both sections, \<open>Inr\<close> the
  dict when the runs are used up.
\<close>

fun process_runs :: "nat \<Rightarrow> string list \<Rightarrow> found \<Rightarrow> found + found" where
  "process_runs min_len [] fnd = Inr fnd"
| "process_runs min_len (r # rs) fnd =
     (if length r < min_len \<or> \<not> contains ''<?xml'' r then process_runs min_len rs fnd
      else (case scan_tags search_tags r fnd of
              (True, fnd') \<Rightarrow> Inl fnd'
            | (False, fnd') \<Rightarrow> process_runs min_len rs fnd'))"

text \<open>
  A dict of sections all of whose entries are fragments of accepted runs among \<open>R\<close>.
\<close>

definition sections_from :: "nat \<Rightarrow> string set \<Rightarrow> found \<Rightarrow> bool" where
  "sections_from n R fnd \<longleftrightarrow>
     distinct (map fst fnd) \<and> fst ` set fnd \<subseteq> set search_tags
     \<and> (\<forall>tag frag. map_of fnd tag = Some frag \<longrightarrow> (\<exists>r \<in> R. accepted n r tag \<and> frag = fragment r))"

section \<open>Example environment\<close>

text \<open>
  A concrete environment for the examples: \<open>parse_path\<close> as \<open>imcflibs.pathtools.parse_path\<close>
  computes it with \<open>posixpath\<close> (\<open>dirname\<close>, \<open>basename\<close>, \<open>splitext\<close>), \<open>strip_prefix\<close> as in
  \<open>imcflibs.strtools\<close>, and \<open>int\<close> on plain decimal digits.
\<close>

definition basename :: "string \<Rightarrow> string" where
  "basename p = rev (takeWhile (\<lambda>c. c \<noteq> CHR ''/'') (rev p))"

definition dirname :: "string \<Rightarrow> string" where
  "dirname p =
     (let head = take (length p - length (basename p)) p
      in if head \<noteq> [] \<and> (\<exists>c \<in> set head. c \<noteq> CHR ''/'')
         then rev (dropWhile (\<lambda>c. c = CHR ''/'') (rev head))
         else head)"

definition splitext_ext :: "string \<Rightarrow> string" where
  "splitext_ext f =
     (let r = takeWhile (\<lambda>c. c \<noteq> CHR ''.'') (rev f)
      in if length r = length f then []
         else if \<exists>c \<in> set (take (length f - length r - 1) f). c \<noteq> CHR ''.''
         then CHR ''.'' # rev r
         else [])"

definition posix_parse_path :: "string \<Rightarrow> storage" where
  "posix_parse_path p =
     (let full' = map (\<lambda>c. if c = CHR 0x5C then CHR ''/'' else c) p;
          path' = dirname full' @ ''/'';
          fname' = basename full'
      in \<lparr>orig = p, full = full', path = path', dname = basename (dirname path'),
          fname = fname', ext = splitext_ext fname', stype = None\<rparr>)"

fun digits_value :: "string \<Rightarrow> int \<Rightarrow> int option" where
  "digits_value [] acc = Some acc"
| "digits_value (c # cs) acc =
     (let n = (of_char c :: nat)
      in if 48 \<le> n \<and> n \<le> 57 then digits_value cs (10 * acc + int (n - 48)) else None)"

definition decimal :: "string \<Rightarrow> int option" where
  "decimal s = (if s = [] then None else digits_value s 0)"

definition example_env :: "string list \<Rightarrow> env" where
  \<comment> \<open>the argument lists the paths that exist\<close>
  "example_env files =
     \<lparr>exists = (\<lambda>p. p \<in> set files), parse_path = posix_parse_path,
      strip_prefix = (\<lambda>s pre. if prefix pre s then drop (length pre) s else s),
      int_of_text = decimal,
      read_utf16 = (\<lambda>p. Inl IOError),
      ole_openstream = (\<lambda>p n. Inl IOError),
      decode_utf16 = (\<lambda>b. None),
      readfp = (\<lambda>t c. Inl ParseError),
      read_bytes = (\<lambda>p. Inl IOError),
      etree_frameprops = (\<lambda>x. Inl ParseError),
      etree_axes = (\<lambda>x. Inl ParseError)\<rparr>"

definition example_mosaic :: mosaic where
  "example_mosaic =
     \<lparr>ds_type = ''mosaic'',
      storage = (posix_parse_path ''/data/MATL_Mosaic.log'')\<lparr>stype := Some ''tree''\<rparr>,
      supplement = [], subvol = [], dim = (2, 2, 1), overlap = 0, overlap_units = ''px''\<rparr>"

text \<open>
  An OIF file of a single plane: the third axis is not a Z axis, and its size is no number.
\<close>

definition example_config :: config where
  \<open>example_config =
     [(''Reference Image Parameter'',
         [(''ValidBitCounts'', ''12''), (''ImageHeight'', ''512''), (''ImageWidth'', ''640'')]),
      (''Axis 2 Parameters Common'', [(''MaxSize'', ''3''), (''AxisName'', ''"Ch"'')]),
      (''Axis 3 Parameters Common'', [(''MaxSize'', ''n/a''), (''AxisName'', ''"X"'')]),
      (''Axis 4 Parameters Common'', [(''MaxSize'', ''5''), (''AxisName'', ''"T"'')])]\<close>

definition example_image :: image where
  "example_image =
     \<lparr>ds_type = ''stack'',
      storage = (posix_parse_path ''/data/Slide1sec001/Slide1sec001_01.oif'')\<lparr>stype := Some ''tree''\<rparr>,
      supplement = [], cls = ImageDataOIF, u_dim = None, position_stage = None,
      position_relative = None, parser = Some example_config, u_xml = None, parse_count = 0\<rparr>"

text \<open>
  The same dataset with a configuration file that lacks the options.
\<close>

definition broken_image :: image where
  "broken_image = example_image\<lparr>parser := Some [(''Reference Image Parameter'', [])]\<rparr>"

text \<open>
  A tile of 100 by 100 pixels whose dimensions are known.
\<close>

definition example_tile :: image where
  "example_tile =
     example_image\<lparr>u_dim := Some [(''B'', 12), (''C'', 1), (''T'', 1), (''X'', 100), (''Y'', 100), (''Z'', 1)]\<rparr>"

text \<open>
  A mosaic of two by two tiles of 100 by 100 pixels with 10 percent overlap, in the order
  of acquisition.
\<close>

definition example_subvol :: "string \<Rightarrow> real list \<Rightarrow> image" where
  "example_subvol f pos =
     example_tile\<lparr>storage := (storage example_tile)\<lparr>full := f\<rparr>, position_relative := Some pos\<rparr>"

definition example_grid :: mosaic where
  "example_grid =
     example_mosaic\<lparr>subvol := [example_subvol ''/data/t00.oif'' [0, 0],
                               example_subvol ''/data/t10.oif'' [90, 0],
                               example_subvol ''/data/t01.oif'' [0, 90],
                               example_subvol ''/data/t11.oif'' [90, 90]]\<rparr>"

text \<open>
  An OIR file: a short run, the frame properties followed by two stray characters, the
  image properties, and a tail that nothing ends; bytes 0 and 1 lie between them.
\<close>

definition frame_fragment :: string where
  \<open>frame_fragment = ''<?xml version="1.0" encoding="utf-8"?><lsmframe:frameProperties><base:width>100</base:width><base:height>100</base:height></lsmframe:frameProperties>''\<close>

definition image_fragment :: string where
  \<open>image_fragment = ''<?xml version="1.0" encoding="utf-8"?><lsmimage:imageProperties><commonimage:acquisition>plane</commonimage:acquisition></lsmimage:imageProperties>''\<close>

definition frame_run :: string where
  "frame_run = frame_fragment @ ''zz''"

definition example_oir_bytes :: string where
  "example_oir_bytes =
     ''junk'' @ CHR 0x00 # frame_run @ CHR 0x01 # image_fragment @ CHR 0x00 # ''tail''"

definition example_found :: found where
  "example_found =
     [(''lsmframe:frameProperties'', frame_fragment), (''lsmimage:imageProperties'', image_fragment)]"

definition example_oir_env :: "string list \<Rightarrow> env" where
  "example_oir_env files =
     (example_env files)
       \<lparr>read_bytes := (\<lambda>p. Inr example_oir_bytes),
        etree_frameprops :=
          (\<lambda>x. if x = frame_fragment then Inr (Inr 100, Inr 100, Inr 12) else Inl ParseError),
        etree_axes := (\<lambda>x. if x = image_fragment then Inr [] else Inl ParseError)\<rparr>"

definition example_oir :: image where
  "example_oir = example_image\<lparr>cls := ImageDataOIR, parser := None\<rparr>"











text \<open>
  A FluoView project with one mosaic of two tiles, and an environment in which the file
  of the first tile exists and reads as \<open>example_config\<close>, while that of the second tile
  is missing under both names.
\<close>

definition example_oif_env :: env where
  "example_oif_env =
     (example_env [''/data/Slide1sec001/Slide1sec001.oif''])
       \<lparr>read_utf16 := (\<lambda>p. Inr ''[Version Info]''), readfp := (\<lambda>t c. Inr example_config)\<rparr>"

definition example_experiment :: mosaic_experiment where
  "example_experiment =
     \<lparr>infile = posix_parse_path ''/data/MATL_Mosaic.log'', datasets = [],
      exp_supplement = [(''xdir'', SStr ''LeftToRight''), (''ydir'', SStr ''TopToBottom''),
                        (''mcount'', SInt 1)]\<rparr>"

definition example_tree :: mosaictree where
  "example_tree =
     \<lparr>attrib_No = Inr 1, XScanDirection = Inr ''LeftToRight'', YScanDirection = Inr ''TopToBottom'',
      XImages = Inr 2, YImages = Inr 1, IndexRatio = Inr 90,
      ImageInfo =
        [\<lparr>Filename = Inr ''Slide1sec001/Slide1sec001.oif'', XPos = Inr 10, YPos = Inr 20,
          Xno = Inr 0, Yno = Inr 0, No = Inr 0\<rparr>,
         \<lparr>Filename = Inr ''Slide1sec002/Slide1sec002.oif'', XPos = Inr 100, YPos = Inr 20,
          Xno = Inr 1, Yno = Inr 0, No = Inr 1\<rparr>]\<rparr>"

section \<open>The overlap of a mosaic\<close>

lemma get_overlap_units:
  "get_overlap u m =
     (if u \<noteq> ''pct'' then Inl TypeError
      else if overlap_units m \<noteq> ''pct'' then Inl NotImplementedError
      else Inr (overlap m))"
  by (auto simp: get_overlap_def)

lemma set_overlap_fields:
  assumes "set_overlap v u m lg = Inr (m', lg')"
  shows "overlap m' = v" and "overlap_units m' = u"
  using assms by (auto simp: set_overlap_def Let_def split: if_splits)

text \<open>
  C8. After \<open>set_overlap v u\<close>, \<open>get_overlap\<close> with any other unit raises (TypeError for a
  requested unit other than \<open>'pct'\<close>, NotImplementedError for \<open>'pct'\<close> on another stored
  unit); nothing is converted. With \<open>'pct'\<close> stored and requested, the stored value comes back.
\<close>

theorem get_overlap_other_unit:
  assumes "set_overlap v u m lg = Inr (m', lg')"
  shows "(u' \<noteq> u \<longrightarrow>
            get_overlap u' m' = Inl (if u' = ''pct'' then NotImplementedError else TypeError))
         \<and> (u = ''pct'' \<longrightarrow> get_overlap ''pct'' m' = Inr v)"
  using set_overlap_fields [OF assms] by (simp add: get_overlap_units)

theorem get_overlap_other_unit_witness:
  "set_overlap 10 ''pct'' example_mosaic [] =
     Inr (example_mosaic\<lparr>overlap := 10, overlap_units := ''pct''\<rparr>, [])
   \<and> get_overlap ''um'' (example_mosaic\<lparr>overlap := 10, overlap_units := ''pct''\<rparr>) = Inl TypeError
   \<and> get_overlap ''pct'' (example_mosaic\<lparr>overlap := 10, overlap_units := ''pct''\<rparr>) = Inr 10"
proof -
  have h: "set_overlap 10 ''pct'' example_mosaic [] =
             Inr (example_mosaic\<lparr>overlap := 10, overlap_units := ''pct''\<rparr>, [])"
    by (simp add: set_overlap_def)
  from get_overlap_other_unit [OF h, of "''um''"] h show ?thesis by simp
qed

text \<open>
  C10. A new \<open>MosaicDataCuboid\<close> stores the overlap 0 in \<open>'px'\<close>, so \<open>get_overlap\<close> raises for
  every unit, NotImplementedError for the default \<open>'pct'\<close>. On any mosaic the getter returns
  a value only for \<open>'pct'\<close> requested and stored, and \<open>set_overlap\<close> with \<open>'pct'\<close> makes it so.
\<close>

theorem get_overlap_fresh:
  assumes "MosaicDataCuboid_init e st_type st_path d = Inr m"
  shows "get_overlap ''pct'' m = Inl NotImplementedError
         \<and> (\<forall>u. get_overlap u m = Inl (if u = ''pct'' then NotImplementedError else TypeError))
         \<and> (\<forall>u x r. get_overlap u x = Inr r \<longrightarrow> u = ''pct'' \<and> overlap_units x = ''pct'')
         \<and> (\<forall>v u lg m' lg' r. set_overlap v u m lg = Inr (m', lg') \<longrightarrow>
               get_overlap ''pct'' m' = Inr r \<longrightarrow> u = ''pct'' \<and> r = v)
         \<and> (\<forall>v lg. \<exists>m' lg'. set_overlap v ''pct'' m lg = Inr (m', lg')
               \<and> get_overlap ''pct'' m' = Inr v)"
proof -
  from assms have units: "overlap_units m = ''px''"
    by (auto simp: MosaicDataCuboid_init_def split: sum.splits)
  have fresh: "\<forall>u. get_overlap u m = Inl (if u = ''pct'' then NotImplementedError else TypeError)"
    by (simp add: get_overlap_units units)
  then have first: "get_overlap ''pct'' m = Inl NotImplementedError"
    by simp
  have only_pct: "\<forall>u x r. get_overlap u x = Inr r \<longrightarrow> u = ''pct'' \<and> overlap_units x = ''pct''"
    by (simp add: get_overlap_units split: if_splits)
  have after: "\<forall>v u lg m' lg' r. set_overlap v u m lg = Inr (m', lg') \<longrightarrow>
                 get_overlap ''pct'' m' = Inr r \<longrightarrow> u = ''pct'' \<and> r = v"
  proof (intro allI impI)
    fix v u lg m' lg' r
    assume s: "set_overlap v u m lg = Inr (m', lg')" and g: "get_overlap ''pct'' m' = Inr r"
    from set_overlap_fields [OF s] g show "u = ''pct'' \<and> r = v"
      by (simp add: get_overlap_units split: if_splits)
  qed
  have can: "\<forall>v lg. \<exists>m' lg'. set_overlap v ''pct'' m lg = Inr (m', lg')
               \<and> get_overlap ''pct'' m' = Inr v"
    by (simp add: set_overlap_def get_overlap_units Let_def)
  show ?thesis
    by (intro conjI first fresh only_pct after can)
qed

theorem get_overlap_fresh_witness:
  "MosaicDataCuboid_init (example_env []) ''tree'' ''/data/MATL_Mosaic.log'' (2, 2, 1)
     = Inr example_mosaic
   \<and> get_overlap ''pct'' example_mosaic = Inl NotImplementedError"
proof -
  have h: "MosaicDataCuboid_init (example_env []) ''tree'' ''/data/MATL_Mosaic.log'' (2, 2, 1)
             = Inr example_mosaic"
    by (simp add: MosaicDataCuboid_init_def MosaicData_init_def DataSet_init_def example_env_def
        example_mosaic_def posix_parse_path_def Let_def basename_def)
  from get_overlap_fresh [OF h] h show ?thesis by simp
qed

section \<open>Dimensions of an image\<close>

lemma get_dimensions_cached:
  "u_dim img = Some d \<Longrightarrow> get_dimensions e img lg = (Inr (Some d), img, lg)"
  by (simp add: get_dimensions_def)

lemma tileno_xy_set_tilenumbers:
  "tileno_xy (supplement (set_tilenumbers tx ty tz img)) = Inr (tx, ty)"
  by (simp add: tileno_xy_def set_tilenumbers_def getitem_def update_conv')

lemma decimal_examples:
  "decimal ''12'' = Some 12" "decimal ''512'' = Some 512" "decimal ''640'' = Some 640"
  "decimal ''3'' = Some 3" "decimal ''5'' = Some 5"
  by (simp_all add: decimal_def)

lemma get_all_example_config:
  \<open>get_all example_config =
     Inr (''12'', ''512'', ''640'', ''n/a'', ''"X"'', ''3'', ''"Ch"'', ''5'', ''"T"'')\<close>
  by (simp add: get_all_def example_config_def parser_get_def ebind_def)

text \<open>
  C7. When the nine options are there and the sizes that are used convert, the parse of an
  OIF or OIB succeeds: each of Z, channels and time whose axis name is not the expected one
  is 0, with one warning for it in the log, and its size text is not even converted; the
  other dimensions are as parsed.
\<close>

theorem parse_dimensions_axis_mismatch:
  assumes p: "parser img = Some p"
    and g: "get_all p = Inr (dim_b, dim_x, dim_y, dim_z, axis_z, dim_c, axis_c, dim_t, axis_t)"
    and b: "int_of_text e dim_b = Some b"
    and x: "int_of_text e dim_x = Some x"
    and y: "int_of_text e dim_y = Some y"
    and z: \<open>axis_z = ''"Z"'' \<longrightarrow> int_of_text e dim_z = Some z\<close>
    and c: \<open>axis_c = ''"Ch"'' \<longrightarrow> int_of_text e dim_c = Some c\<close>
    and t: \<open>axis_t = ''"T"'' \<longrightarrow> int_of_text e dim_t = Some t\<close>
  shows \<open>parse_dimensions_Olympus e img lg =
           (None,
            img\<lparr>u_dim := Some [(''B'', b),
                               (''C'', if axis_c = ''"Ch"'' then c else 0),
                               (''T'', if axis_t = ''"T"'' then t else 0),
                               (''X'', x), (''Y'', y),
                               (''Z'', if axis_z = ''"Z"'' then z else 0)]\<rparr>,
            lg @ (if axis_z = ''"Z"'' then []
                  else [(WARN, ''WARNING: couldn't find Z axis in metadata!'', [])])
               @ (if axis_c = ''"Ch"'' then []
                  else [(WARN, ''WARNING: couldn't find channels in metadata!'', [])])
               @ (if axis_t = ''"T"'' then []
                  else [(WARN, ''WARNING: couldn't find timepoints in metadata!'', [])]))\<close>
  using z c t
  by (simp add: parse_dimensions_Olympus_def p g check_axis_def py_int_def ebind_def b x y)

theorem parse_dimensions_axis_mismatch_witness:
  \<open>parse_dimensions_Olympus (example_env []) example_image [] =
     (None,
      example_image\<lparr>u_dim := Some [(''B'', 12), (''C'', 3), (''T'', 5),
                                     (''X'', 512), (''Y'', 640), (''Z'', 0)]\<rparr>,
      [(WARN, ''WARNING: couldn't find Z axis in metadata!'', [])])\<close>
proof -
  have p: "parser example_image = Some example_config"
    by (simp add: example_image_def)
  have i: "int_of_text (example_env []) = decimal"
    by (simp add: example_env_def)
  from parse_dimensions_axis_mismatch [OF p get_all_example_config, of "example_env []" 12 512 640 0 3 5 "[]"]
  show ?thesis
    by (simp add: i decimal_examples)
qed

text \<open>
  C1. With the dimensions known and the tile numbers set, \<open>set_relpos\<close> stores, for each of
  the two axes, size times \<open>(100 - overlap) / 100\<close> times the tile number, and that is 0
  where the tile number is 0.
\<close>

theorem set_relpos_formula:
  assumes d: "u_dim img = Some d"
    and sx: "getitem d ''X'' = Inr size_x"
    and sy: "getitem d ''Y'' = Inr size_y"
  shows "\<exists>pos_x pos_y.
           set_relpos e ov (set_tilenumbers tx ty tz img) lg =
             (None, (set_tilenumbers tx ty tz img)\<lparr>position_relative := Some [pos_x, pos_y]\<rparr>, lg)
           \<and> pos_x = real_of_int size_x * ((100 - ov) / 100) * real_of_int tx
           \<and> pos_y = real_of_int size_y * ((100 - ov) / 100) * real_of_int ty
           \<and> (tx = 0 \<longrightarrow> pos_x = 0) \<and> (ty = 0 \<longrightarrow> pos_y = 0)"
proof -
  have d': "u_dim (set_tilenumbers tx ty tz img) = Some d"
    using d by (simp add: set_tilenumbers_def)
  show ?thesis
    by (intro exI [of _ "real_of_int size_x * ((100 - ov) / 100) * real_of_int tx"]
              exI [of _ "real_of_int size_y * ((100 - ov) / 100) * real_of_int ty"])
       (simp add: set_relpos_def get_dimensions_cached [OF d'] dims_item_def sx sy
        tileno_xy_set_tilenumbers Let_def)
qed

theorem set_relpos_formula_witness:
  "set_relpos (example_env []) 10
     (set_tilenumbers 1 2 None (set_stagecoords (Some 10, Some 20) example_tile)) [] =
   (None,
    (set_tilenumbers 1 2 None (set_stagecoords (Some 10, Some 20) example_tile))
      \<lparr>position_relative := Some [90, 180]\<rparr>,
    [])"
proof -
  have d: "u_dim (set_stagecoords (Some 10, Some 20) example_tile) =
             Some [(''B'', 12), (''C'', 1), (''T'', 1), (''X'', 100), (''Y'', 100), (''Z'', 1)]"
    by (simp add: set_stagecoords_def example_tile_def)
  have sx: "getitem [(''B'', 12), (''C'', 1), (''T'', 1), (''X'', 100), (''Y'', 100), (''Z'', 1)] ''X''
              = Inr (100 :: int)"
    by (simp add: getitem_def)
  have sy: "getitem [(''B'', 12), (''C'', 1), (''T'', 1), (''X'', 100), (''Y'', 100), (''Z'', 1)] ''Y''
              = Inr (100 :: int)"
    by (simp add: getitem_def)
  from set_relpos_formula [OF d sx sy, of "example_env []" 10 1 2 None "[]"]
  show ?thesis
    by auto
qed

subsection \<open>What the dimension parsers leave unchanged\<close>

lemma keeps_trans: "keeps a b \<Longrightarrow> keeps b c \<Longrightarrow> keeps a c"
  by (simp add: keeps_def)

lemma xml_keeps: "xml e img = (r, img') \<Longrightarrow> keeps img img'"
  by (auto simp: keeps_def xml_def split: option.splits sum.splits)

lemma parse_frameprops_keeps: "parse_frameprops e x img = (r, img') \<Longrightarrow> keeps img img'"
  by (auto simp: keeps_def parse_frameprops_def ebind_def dim_setitem_def
      split: sum.splits prod.splits option.splits)

lemma parse_imageprops_keeps: "parse_imageprops e x img = (r, img') \<Longrightarrow> keeps img img'"
  by (auto simp: keeps_def parse_imageprops_def ebind_def dim_setitem_def
      split: sum.splits prod.splits option.splits)

lemma parse_dimensions_OIR_try_keeps:
  assumes "parse_dimensions_OIR_try e img = (r, img')"
  shows "keeps img img'"
proof -
  obtain r1 img1 where x1: "xml e img = (r1, img1)" by force
  note k1 = xml_keeps [OF x1]
  show ?thesis
  proof (cases r1)
    case (Inl err)
    with assms x1 k1 show ?thesis by (simp add: parse_dimensions_OIR_try_def)
  next
    case f1: (Inr f1)
    show ?thesis
    proof (cases "getitem f1 ''lsmframe:frameProperties''")
      case (Inl err)
      with assms x1 f1 k1 show ?thesis by (simp add: parse_dimensions_OIR_try_def)
    next
      case fp: (Inr fp)
      obtain r2 img2 where p2: "parse_frameprops e fp img1 = (r2, img2)" by force
      note k2 = keeps_trans [OF k1 parse_frameprops_keeps [OF p2]]
      show ?thesis
      proof (cases r2)
        case (Some err)
        with assms x1 f1 fp p2 k2 show ?thesis by (simp add: parse_dimensions_OIR_try_def)
      next
        case None
        obtain r3 img3 where x3: "xml e img2 = (r3, img3)" by force
        note k3 = keeps_trans [OF k2 xml_keeps [OF x3]]
        show ?thesis
        proof (cases r3)
          case (Inl err)
          with assms x1 f1 fp p2 None x3 k3 show ?thesis
            by (simp add: parse_dimensions_OIR_try_def)
        next
          case f3: (Inr f3)
          show ?thesis
          proof (cases "getitem f3 ''lsmimage:imageProperties''")
            case (Inl err)
            with assms x1 f1 fp p2 None x3 f3 k3 show ?thesis
              by (simp add: parse_dimensions_OIR_try_def)
          next
            case (Inr ip)
            with assms x1 f1 fp p2 None x3 f3
            have "parse_imageprops e ip img3 = (r, img')"
              by (simp add: parse_dimensions_OIR_try_def)
            from keeps_trans [OF k3 parse_imageprops_keeps [OF this]] show ?thesis .
          qed
        qed
      qed
    qed
  qed
qed

lemma parse_dimensions_OIR_keeps:
  assumes "parse_dimensions_OIR e img lg = (r, img', lg')"
  shows "u_dim img' \<noteq> None" and "parse_count img' = parse_count img"
  using assms
  by (auto simp: parse_dimensions_OIR_def Let_def keeps_def split: prod.splits option.splits
      dest!: parse_dimensions_OIR_try_keeps)

lemma parse_dimensions_Olympus_keeps:
  assumes "parse_dimensions_Olympus e img lg = (None, img', lg')"
  shows "u_dim img' \<noteq> None" and "parse_count img' = parse_count img"
  using assms
  by (auto simp: parse_dimensions_Olympus_def Let_def split: prod.splits option.splits sum.splits)

lemma parse_dimensions_ok:
  assumes "parse_dimensions e img lg = (None, img', lg')"
  shows "u_dim img' \<noteq> None" and "parse_count img' = Suc (parse_count img)"
  using assms
  by (auto simp: parse_dimensions_def Let_def split: image_class.splits
      dest: parse_dimensions_OIR_keeps parse_dimensions_Olympus_keeps)

lemma get_dimensions_result:
  assumes "get_dimensions e img lg = (Inr d, img1, lg1)"
  shows "d \<noteq> None" and "u_dim img1 = d"
    and "parse_count img1 = (if u_dim img = None then Suc (parse_count img) else parse_count img)"
proof -
  have "d \<noteq> None \<and> u_dim img1 = d
        \<and> parse_count img1 = (if u_dim img = None then Suc (parse_count img) else parse_count img)"
  proof (cases "u_dim img")
    case None
    with assms obtain r where pd: "parse_dimensions e img lg = (r, img1, lg1)"
      by (auto simp: get_dimensions_def split: prod.splits option.splits)
    with assms None have r: "r = None" and d: "d = u_dim img1"
      by (auto simp: get_dimensions_def split: option.splits)
    from parse_dimensions_ok [OF pd [unfolded r]] d None show ?thesis
      by auto
  next
    case (Some d')
    with assms have "img1 = img" "d = Some d'"
      by (auto simp: get_dimensions_def)
    with Some show ?thesis
      by simp
  qed
  then show "d \<noteq> None" and "u_dim img1 = d"
    and "parse_count img1 = (if u_dim img = None then Suc (parse_count img) else parse_count img)"
    by simp_all
qed

text \<open>
  C5, as amended. When a call of \<open>get_dimensions\<close> returns, its value is a dict and is
  cached: the parser was called once if the dimensions were unknown and not at all if they
  were set, and a second call returns the same value and changes nothing, so it calls no
  parser.
\<close>

theorem get_dimensions_memoized:
  assumes "get_dimensions e img lg = (Inr d, img1, lg1)"
  shows "d \<noteq> None \<and> u_dim img1 = d
         \<and> get_dimensions e img1 lg1 = (Inr d, img1, lg1)
         \<and> parse_count img1 = (if u_dim img = None then Suc (parse_count img) else parse_count img)"
proof -
  note r = get_dimensions_result [OF assms]
  from r(1,2) obtain d' where "u_dim img1 = Some d'" and "d = Some d'"
    by auto
  then have "get_dimensions e img1 lg1 = (Inr d, img1, lg1)"
    by (simp add: get_dimensions_cached)
  with r show ?thesis
    by simp
qed

lemma get_dimensions_example_image:
  \<open>get_dimensions (example_env []) example_image [] =
     (Inr (Some [(''B'', 12), (''C'', 3), (''T'', 5), (''X'', 512), (''Y'', 640), (''Z'', 0)]),
      example_image\<lparr>u_dim := Some [(''B'', 12), (''C'', 3), (''T'', 5),
                                     (''X'', 512), (''Y'', 640), (''Z'', 0)],
                    parse_count := 1\<rparr>,
      [(WARN, ''WARNING: couldn't find Z axis in metadata!'', [])])\<close>
  by (simp add: get_dimensions_def parse_dimensions_def parse_dimensions_Olympus_def
      example_image_def get_all_example_config check_axis_def py_int_def ebind_def
      example_env_def decimal_examples decimal_def)

theorem get_dimensions_memoized_witness:
  \<open>get_dimensions (example_env [])
     (example_image\<lparr>u_dim := Some [(''B'', 12), (''C'', 3), (''T'', 5),
                                     (''X'', 512), (''Y'', 640), (''Z'', 0)],
                    parse_count := 1\<rparr>)
     [(WARN, ''WARNING: couldn't find Z axis in metadata!'', [])] =
   (Inr (Some [(''B'', 12), (''C'', 3), (''T'', 5), (''X'', 512), (''Y'', 640), (''Z'', 0)]),
    example_image\<lparr>u_dim := Some [(''B'', 12), (''C'', 3), (''T'', 5),
                                   (''X'', 512), (''Y'', 640), (''Z'', 0)],
                  parse_count := 1\<rparr>,
    [(WARN, ''WARNING: couldn't find Z axis in metadata!'', [])])\<close>
  using get_dimensions_memoized [OF get_dimensions_example_image] by (elim conjE)

text \<open>
  The claim C5 as it is written fails where the parser raises: nothing is cached, and the
  second call calls the parser a second time.
\<close>

theorem get_dimensions_reparses_after_failure:
  "get_dimensions (example_env []) broken_image [] =
     (Inl ValueError, broken_image\<lparr>parse_count := 1\<rparr>, [])
   \<and> get_dimensions (example_env []) (broken_image\<lparr>parse_count := 1\<rparr>) [] =
     (Inl ValueError, broken_image\<lparr>parse_count := 2\<rparr>, [])"
  by (simp add: get_dimensions_def parse_dimensions_def parse_dimensions_Olympus_def
      broken_image_def example_image_def get_all_def parser_get_def ebind_def)

section \<open>The file name repair\<close>

lemma validate_filepath_exists:
  "exists e (full st) \<Longrightarrow> validate_filepath e st = Inr st"
  by (simp add: validate_filepath_def)

lemma validate_filepath_missing:
  assumes "\<not> exists e (full st)"
  shows "validate_filepath e st =
           (let fpath = parse_path e (py_replace (ext st) (''_01'' @ ext st) (orig st))
            in if exists e (full fpath) then Inr fpath else Inl IOError)"
  using assms by (simp add: validate_filepath_def Let_def)

lemma basename_tile: "basename ''/data/run.oib/tile.oib'' = ''tile.oib''"
  by (simp add: basename_def)

lemma dirname_tile: "dirname ''/data/run.oib/tile.oib'' = ''/data/run.oib''"
  by (simp add: dirname_def basename_tile Let_def)

lemma splitext_tile: "splitext_ext ''tile.oib'' = ''.oib''"
  by (simp add: splitext_ext_def Let_def)

lemma basename_dir: "basename ''/data/run.oib/'' = ''''"
  by (simp add: basename_def)

lemma dirname_dir: "dirname ''/data/run.oib/'' = ''/data/run.oib''"
  by (simp add: dirname_def basename_dir Let_def)

lemma basename_run: "basename ''/data/run.oib'' = ''run.oib''"
  by (simp add: basename_def)

lemma slashes_tile: "map (\<lambda>c. if c = CHR 0x5C then CHR ''/'' else c) ''/data/run.oib/tile.oib'' = ''/data/run.oib/tile.oib''"
  by simp

lemma parse_path_tile:
  "posix_parse_path ''/data/run.oib/tile.oib'' =
     \<lparr>orig = ''/data/run.oib/tile.oib'', full = ''/data/run.oib/tile.oib'',
      path = ''/data/run.oib/'', dname = ''run.oib'', fname = ''tile.oib'', ext = ''.oib'',
      stype = None\<rparr>"
  unfolding posix_parse_path_def Let_def slashes_tile basename_tile dirname_tile splitext_tile
  by (simp add: basename_dir dirname_dir basename_run)

lemma py_replace_Nil: "old \<noteq> [] \<Longrightarrow> py_replace old new [] = []"
  by (subst py_replace.simps) simp

lemma py_replace_match:
  "old \<noteq> [] \<Longrightarrow> prefix old (c # cs) \<Longrightarrow>
     py_replace old new (c # cs) = new @ py_replace old new (drop (length old) (c # cs))"
  by (subst py_replace.simps) simp

lemma py_replace_skip:
  "old \<noteq> [] \<Longrightarrow> \<not> prefix old (c # cs) \<Longrightarrow>
     py_replace old new (c # cs) = c # py_replace old new cs"
  by (subst py_replace.simps) simp

lemma py_replace_tile:
  "py_replace ''.oib'' ''_01.oib'' ''/data/run.oib/tile.oib'' = ''/data/run_01.oib/tile_01.oib''"
  by (simp add: py_replace_Nil py_replace_match py_replace_skip)

lemma full_posix_parse_path:
  "full (posix_parse_path p) = map (\<lambda>c. if c = CHR 0x5C then CHR ''/'' else c) p"
  by (simp add: posix_parse_path_def Let_def)

lemma validate_filepath_stype:
  "validate_filepath e st = Inl err \<Longrightarrow> validate_filepath e (st\<lparr>stype := x\<rparr>) = Inl err"
  by (simp add: validate_filepath_def Let_def split: if_splits)

text \<open>
  C6 at a path whose directory carries the extension too: \<open>/data/run.oib/tile_01.oib\<close>
  exists, yet the path that is tried is \<open>/data/run_01.oib/tile_01.oib\<close>, since
  \<open>str.replace\<close> puts \<open>_01\<close> before every occurrence of \<open>.oib\<close>, and the constructor
  raises IOError.
\<close>

theorem validate_filepath_replaces_every_occurrence:
  "py_replace (ext (posix_parse_path ''/data/run.oib/tile.oib''))
              (''_01'' @ ext (posix_parse_path ''/data/run.oib/tile.oib''))
              (orig (posix_parse_path ''/data/run.oib/tile.oib''))
     = ''/data/run_01.oib/tile_01.oib''
   \<and> validate_filepath (example_env [''/data/run.oib/tile_01.oib''])
                        (posix_parse_path ''/data/run.oib/tile.oib'') = Inl IOError
   \<and> ImageDataOlympus_init (example_env [''/data/run.oib/tile_01.oib'']) ImageDataOIB
                            ''/data/run.oib/tile.oib'' = Inl IOError"
proof -
  have e: "exists (example_env [''/data/run.oib/tile_01.oib'']) = (\<lambda>p. p = ''/data/run.oib/tile_01.oib'')"
    and pp: "parse_path (example_env [''/data/run.oib/tile_01.oib'']) = posix_parse_path"
    by (simp_all add: example_env_def)
  have r: "py_replace (ext (posix_parse_path ''/data/run.oib/tile.oib''))
              (''_01'' @ ext (posix_parse_path ''/data/run.oib/tile.oib''))
              (orig (posix_parse_path ''/data/run.oib/tile.oib''))
             = ''/data/run_01.oib/tile_01.oib''"
    by (simp add: parse_path_tile py_replace_tile)
  have v: "validate_filepath (example_env [''/data/run.oib/tile_01.oib''])
             (posix_parse_path ''/data/run.oib/tile.oib'') = Inl IOError"
    unfolding validate_filepath_def Let_def e pp r
    by (simp add: full_posix_parse_path)
  have i: "ImageDataOlympus_init (example_env [''/data/run.oib/tile_01.oib'']) ImageDataOIB
             ''/data/run.oib/tile.oib'' = Inl IOError"
    by (simp add: ImageDataOlympus_init_def DataSet_init_def pp validate_filepath_stype [OF v] Let_def)
  from r v i show ?thesis
    by (intro conjI)
qed


section \<open>The order of the tiles\<close>

lemma sorted_wrt_two_keys:
  fixes f g :: "'a \<Rightarrow> real"
  assumes "sorted (map f xs)" and "\<forall>k. sorted (map g (filter (\<lambda>y. f y = k) xs))"
  shows "sorted_wrt (\<lambda>a b. f a < f b \<or> (f a = f b \<and> g a \<le> g b)) xs"
  using assms
proof (induction xs)
  case Nil
  show ?case by simp
next
  case (Cons x xs)
  have tail: "\<forall>k. sorted (map g (filter (\<lambda>y. f y = k) xs))"
  proof
    fix k
    from Cons.prems(2) have "sorted (map g (filter (\<lambda>y. f y = k) (x # xs)))" by blast
    then show "sorted (map g (filter (\<lambda>y. f y = k) xs))"
      by (cases "f x = k") simp_all
  qed
  have head: "f x < f y \<or> (f x = f y \<and> g x \<le> g y)" if y: "y \<in> set xs" for y
  proof (cases "f x = f y")
    case True
    from Cons.prems(2) have "sorted (map g (filter (\<lambda>z. f z = f x) (x # xs)))" by blast
    with True y show ?thesis by auto
  next
    case False
    from Cons.prems(1) y have "f x \<le> f y" by auto
    with False show ?thesis by simp
  qed
  from Cons.prems(1) have "sorted (map f xs)" by simp
  from Cons.IH [OF this tail] head show ?case by simp
qed

lemma sorted_reverse_twice:
  "sorted_wrt (\<lambda>a b. k2 a > k2 b \<or> (k2 a = k2 b \<and> k1 a \<ge> k1 b))
     (sorted_reverse k2 (sorted_reverse k1 xs))"
proof -
  let ?f = "\<lambda>x. - k2 x" and ?g = "\<lambda>x. - k1 x"
  let ?ys = "sort_key ?f (sort_key ?g xs)"
  have 1: "sorted (map ?f ?ys)" by (rule sorted_sort_key)
  have 2: "\<forall>k. sorted (map ?g (filter (\<lambda>y. ?f y = k) ?ys))"
  proof
    fix k
    have "filter (\<lambda>y. ?f y = k) ?ys = filter (\<lambda>y. ?f y = k) (sort_key ?g xs)"
      by (rule sort_key_stable)
    moreover have "sorted (map ?g (filter (\<lambda>y. ?f y = k) (sort_key ?g xs)))"
      by (rule sorted_filter) (rule sorted_sort_key)
    ultimately show "sorted (map ?g (filter (\<lambda>y. ?f y = k) ?ys))" by simp
  qed
  from sorted_wrt_two_keys [OF 1 2] show ?thesis
    by (simp add: sorted_reverse_def)
qed

lemma mset_sorted_reverse: "mset (sorted_reverse k xs) = mset xs"
  by (simp add: sorted_reverse_def)

lemma tiles_of_total:
  assumes "\<forall>v \<in> set vols. \<exists>p. position_relative v = Some p \<and> 2 \<le> length p"
  shows "\<exists>tiles. tiles_of e base vols = Inr tiles \<and> length tiles = length vols"
  using assms
proof (induction vols)
  case Nil
  show ?case by simp
next
  case (Cons v vols)
  then obtain tiles where t: "tiles_of e base vols = Inr tiles" "length tiles = length vols"
    by auto
  from Cons.prems obtain p where p: "position_relative v = Some p" "2 \<le> length p"
    by auto
  then obtain a b r where "p = a # b # r"
    by (cases p; cases "tl p") auto
  with p have "\<exists>c. tile_coords (position_relative v) = Inr c"
    by (cases r) (simp_all add: tile_coords_def)
  with t show ?case by (auto simp: Let_def)
qed

text \<open>
  C2. For a mosaic whose subvolumes all have a relative position of two or more
  components, \<open>files_and_coords\<close> returns with and without \<open>sort\<close>; the sorted list is a
  permutation of the unsorted one, and of any two of its tiles the earlier one has the
  greater second coordinate, or the same second and a greater or equal first coordinate.
\<close>

theorem files_and_coords_sorted:
  assumes "\<forall>v \<in> set (subvol m). \<exists>p. position_relative v = Some p \<and> 2 \<le> length p"
  shows "\<exists>us ts. files_and_coords e m False = Inr us \<and> files_and_coords e m True = Inr ts
           \<and> length us = length (subvol m)
           \<and> mset ts = mset us
           \<and> sorted_wrt (\<lambda>a b. snd a ! 1 > snd b ! 1
                                 \<or> (snd a ! 1 = snd b ! 1 \<and> snd a ! 0 \<ge> snd b ! 0)) ts"
proof -
  from tiles_of_total [OF assms]
  obtain tiles where t: "tiles_of e (path (storage m)) (subvol m) = Inr tiles"
    "length tiles = length (subvol m)"
    by blast
  then show ?thesis
    using sorted_reverse_twice [of "\<lambda>x. snd x ! 1" "\<lambda>x. snd x ! 0" tiles]
    by (simp add: files_and_coords_def mset_sorted_reverse)
qed


lemma path_example_mosaic: "path (storage example_mosaic) = ''/data/''"
proof -
  have b: "basename ''/data/MATL_Mosaic.log'' = ''MATL_Mosaic.log''"
    by (simp add: basename_def)
  have d: "dirname ''/data/MATL_Mosaic.log'' = ''/data''"
    by (simp add: dirname_def b Let_def)
  have m: "map (\<lambda>c. if c = CHR 0x5C then CHR ''/'' else c) ''/data/MATL_Mosaic.log''
             = ''/data/MATL_Mosaic.log''"
    by simp
  show ?thesis
    unfolding example_mosaic_def posix_parse_path_def Let_def m d
    by simp
qed

lemma example_subvol_fields:
  "full (storage (example_subvol f pos)) = f" "position_relative (example_subvol f pos) = Some pos"
  by (simp_all add: example_subvol_def)

lemma tiles_example_grid:
  "tiles_of (example_env []) ''/data/'' (subvol example_grid) =
     Inr [(''t00.oif'', [0, 0]), (''t10.oif'', [90, 0]), (''t01.oif'', [0, 90]), (''t11.oif'', [90, 90])]"
  by (simp add: example_grid_def example_subvol_fields tile_coords_def example_env_def)

theorem files_and_coords_sorted_witness:
  "files_and_coords (example_env []) example_grid False =
     Inr [(''t00.oif'', [0, 0]), (''t10.oif'', [90, 0]), (''t01.oif'', [0, 90]), (''t11.oif'', [90, 90])]
   \<and> files_and_coords (example_env []) example_grid True =
     Inr [(''t11.oif'', [90, 90]), (''t01.oif'', [0, 90]), (''t10.oif'', [90, 0]), (''t00.oif'', [0, 0])]
   \<and> mset [(''t11.oif'', [90, 90 :: real]), (''t01.oif'', [0, 90]), (''t10.oif'', [90, 0]), (''t00.oif'', [0, 0])]
       = mset [(''t00.oif'', [0, 0]), (''t10.oif'', [90, 0]), (''t01.oif'', [0, 90]), (''t11.oif'', [90, 90])]
   \<and> sorted_wrt (\<lambda>a b. snd a ! 1 > snd b ! 1 \<or> (snd a ! 1 = snd b ! 1 \<and> snd a ! 0 \<ge> snd b ! 0))
        [(''t11.oif'', [90, 90 :: real]), (''t01.oif'', [0, 90]), (''t10.oif'', [90, 0]), (''t00.oif'', [0, 0])]"
proof -
  have p: "path (storage example_grid) = ''/data/''"
    using path_example_mosaic by (simp add: example_grid_def)
  have h: "\<forall>v \<in> set (subvol example_grid). \<exists>p. position_relative v = Some p \<and> 2 \<le> length p"
    by (simp add: example_grid_def example_subvol_fields)
  have f: "files_and_coords (example_env []) example_grid False =
     Inr [(''t00.oif'', [0, 0]), (''t10.oif'', [90, 0]), (''t01.oif'', [0, 90]), (''t11.oif'', [90, 90])]"
    by (simp add: files_and_coords_def p tiles_example_grid)
  have t: "files_and_coords (example_env []) example_grid True =
     Inr [(''t11.oif'', [90, 90]), (''t01.oif'', [0, 90]), (''t10.oif'', [90, 0]), (''t00.oif'', [0, 0])]"
    by (simp add: files_and_coords_def p tiles_example_grid sorted_reverse_def sort_key_def)
  from files_and_coords_sorted [OF h, of "example_env []"] f t show ?thesis
    by auto
qed


section \<open>Scanning an OIR file\<close>

lemma scan_chunk_runs:
  "scan_chunk n cs acc fnd =
     (case process_runs n (runs_from acc cs) fnd of
        Inl f \<Rightarrow> Inl f
      | Inr f \<Rightarrow> Inr (last_run acc cs, f))"
  by (induction cs arbitrary: acc fnd) (auto split: sum.splits prod.splits bool.splits)

lemma runs_from_append:
  "runs_from acc (xs @ ys) = runs_from acc xs @ runs_from (last_run acc xs) ys"
  by (induction xs arbitrary: acc) auto

lemma last_run_append:
  "last_run acc (xs @ ys) = last_run (last_run acc xs) ys"
  by (induction xs arbitrary: acc) auto

lemma process_runs_append:
  "process_runs n (rs @ rs') fnd =
     (case process_runs n rs fnd of Inl f \<Rightarrow> Inl f | Inr f \<Rightarrow> process_runs n rs' f)"
  by (induction rs arbitrary: fnd) (auto split: sum.splits prod.splits bool.splits)

lemma scan_chunk_append:
  "scan_chunk n (xs @ ys) acc fnd =
     (case scan_chunk n xs acc fnd of
        Inl f \<Rightarrow> Inl f
      | Inr (acc', f) \<Rightarrow> scan_chunk n ys acc' f)"
  by (simp add: scan_chunk_runs runs_from_append last_run_append process_runs_append split: sum.splits)

lemma read_loop_scan:
  "read_loop n rest acc fnd =
     (case scan_chunk n rest acc fnd of Inl f \<Rightarrow> Inr f | Inr p \<Rightarrow> Inl ValueError)"
proof (induction n rest acc fnd rule: read_loop.induct)
  case (1 n rest acc fnd)
  show ?case
  proof (cases "take chunk_size rest = []")
    case True
    then have "rest = []" by (simp add: chunk_size_def)
    then show ?thesis by (subst read_loop.simps) simp
  next
    case False
    note split = scan_chunk_append [of n "take chunk_size rest" "drop chunk_size rest" acc fnd,
        unfolded append_take_drop_id]
    show ?thesis
    proof (cases "scan_chunk n (take chunk_size rest) acc fnd")
      case (Inl f)
      then have "scan_chunk n rest acc fnd = Inl f"
        by (simp add: split)
      with Inl False show ?thesis by (subst read_loop.simps) simp
    next
      case (Inr p)
      obtain acc' f' where p: "p = (acc', f')" by (cases p)
      from Inr p have "scan_chunk n rest acc fnd = scan_chunk n (drop chunk_size rest) acc' f'"
        by (simp add: split)
      moreover from "1.IH" [OF refl False Inr p [symmetric]]
      have "read_loop n (drop chunk_size rest) acc' f' =
              (case scan_chunk n (drop chunk_size rest) acc' f' of Inl f \<Rightarrow> Inr f | Inr p \<Rightarrow> Inl ValueError)" .
      ultimately show ?thesis using Inr p False by (subst read_loop.simps) simp
    qed
  qed
qed


lemma sections_from_mono: "sections_from n R fnd \<Longrightarrow> R \<subseteq> R' \<Longrightarrow> sections_from n R' fnd"
  unfolding sections_from_def by blast

lemma sections_from_update:
  assumes "sections_from n R fnd" and "tag \<in> set search_tags" and "r \<in> R" and "accepted n r tag"
  shows "sections_from n R (AList.update tag (fragment r) fnd)"
  using assms unfolding sections_from_def
  by (auto simp: distinct_update dom_update update_conv')

lemma length_update_le: "length (AList.update k v al) \<le> Suc (length al)"
  by (induction al) auto

lemma scan_tags_sound:
  assumes "scan_tags tags r fnd = (b, fnd')" and "set tags \<subseteq> set search_tags"
    and "n \<le> length r" and "contains ''<?xml'' r" and "r \<in> R" and "sections_from n R fnd"
  shows "sections_from n R fnd'" and "b \<Longrightarrow> length fnd' = length search_tags"
  using assms
proof (induction tags arbitrary: fnd)
  case Nil
  { case 1 then show ?case by simp }
  { case 2 then show ?case by simp }
next
  case (Cons tag tags)
  { case 1
    show ?case
    proof (cases "contains (CHR ''<'' # tag) r")
      case False
      with 1 Cons.IH(1) [of fnd] show ?thesis by simp
    next
      case True
      let ?f = "AList.update tag (fragment r) fnd"
      from True 1 have acc: "accepted n r tag" by (simp add: accepted_def)
      from 1 have "tag \<in> set search_tags" by simp
      from sections_from_update [OF 1(6) this 1(5) acc] have inv: "sections_from n R ?f" .
      show ?thesis
      proof (cases "length ?f = length search_tags")
        case True
        with \<open>contains (CHR ''<'' # tag) r\<close> 1(1) inv show ?thesis
          by (simp add: fragment_def Let_def)
      next
        case False
        with \<open>contains (CHR ''<'' # tag) r\<close> 1(1) have "scan_tags tags r ?f = (b, fnd')"
          by (simp add: fragment_def Let_def)
        from Cons.IH(1) [OF this _ 1(3) 1(4) 1(5) inv] 1(2) show ?thesis by simp
      qed
    qed }
  { case 2
    show ?case
    proof (cases "contains (CHR ''<'' # tag) r")
      case False
      with 2 Cons.IH(2) [of fnd] show ?thesis by simp
    next
      case True
      let ?f = "AList.update tag (fragment r) fnd"
      from True 2 have acc: "accepted n r tag" by (simp add: accepted_def)
      from 2 have "tag \<in> set search_tags" by simp
      from sections_from_update [OF 2(7) this 2(6) acc] have inv: "sections_from n R ?f" .
      show ?thesis
      proof (cases "length ?f = length search_tags")
        case True
        with \<open>contains (CHR ''<'' # tag) r\<close> 2(2) show ?thesis
          by (simp add: fragment_def Let_def)
      next
        case False
        with \<open>contains (CHR ''<'' # tag) r\<close> 2(2) have "scan_tags tags r ?f = (b, fnd')"
          by (simp add: fragment_def Let_def)
        from Cons.IH(2) [OF 2(1) this _ 2(4) 2(5) 2(6) inv] 2(3) show ?thesis by simp
      qed
    qed }
qed


lemma scan_tags_step:
  assumes c: "contains (CHR ''<'' # tag) r" and s: "scan_tags (tag # tags) r fnd = (False, fnd')"
    and l: "length fnd < length search_tags"
  shows "scan_tags tags r (AList.update tag (fragment r) fnd) = (False, fnd')"
    and "length (AList.update tag (fragment r) fnd) < length search_tags"
proof -
  from c s have ne: "length (AList.update tag (fragment r) fnd) \<noteq> length search_tags"
    by (auto simp: fragment_def Let_def split: if_splits)
  with c s show "scan_tags tags r (AList.update tag (fragment r) fnd) = (False, fnd')"
    by (simp add: fragment_def Let_def)
  from ne l length_update_le [of tag "fragment r" fnd]
  show "length (AList.update tag (fragment r) fnd) < length search_tags" by simp
qed

lemma scan_tags_complete:
  assumes "scan_tags tags r fnd = (False, fnd')" and "length fnd < length search_tags"
  shows "length fnd' < length search_tags
         \<and> fst ` set fnd \<subseteq> fst ` set fnd'
         \<and> (\<forall>tag \<in> set tags. contains (CHR ''<'' # tag) r \<longrightarrow> tag \<in> fst ` set fnd')"
  using assms
proof (induction tags arbitrary: fnd)
  case Nil
  then show ?case by simp
next
  case (Cons tag tags)
  show ?case
  proof (cases "contains (CHR ''<'' # tag) r")
    case True
    from Cons.IH [OF scan_tags_step [OF True Cons.prems]] show ?thesis
      by (auto simp: dom_update)
  next
    case False
    with Cons.prems have "scan_tags tags r fnd = (False, fnd')" by simp
    from Cons.IH [OF this Cons.prems(2)] False show ?thesis by simp
  qed
qed

lemma process_runs_sound:
  assumes "process_runs n rs fnd = Inl f" and "sections_from n R fnd" and "set rs \<subseteq> R"
  shows "sections_from n R f \<and> length f = length search_tags"
  using assms
proof (induction rs arbitrary: fnd)
  case Nil
  then show ?case by simp
next
  case (Cons r rs)
  show ?case
  proof (cases "length r < n \<or> \<not> contains ''<?xml'' r")
    case True
    with Cons show ?thesis by simp
  next
    case False
    obtain b fnd' where st: "scan_tags search_tags r fnd = (b, fnd')" by force
    from False Cons.prems(3) have "n \<le> length r" "contains ''<?xml'' r" "r \<in> R" by auto
    note snd = scan_tags_sound [OF st subset_refl this Cons.prems(2)]
    show ?thesis
    proof (cases b)
      case True
      with False st Cons.prems(1) snd show ?thesis by simp
    next
      case b: False
      with False st Cons.prems(1) have "process_runs n rs fnd' = Inl f" by simp
      from Cons.IH [OF this snd(1)] Cons.prems(3) show ?thesis by simp
    qed
  qed
qed

lemma process_runs_complete:
  assumes "process_runs n rs fnd = Inr f" and "length fnd < length search_tags"
  shows "length f < length search_tags \<and> fst ` set fnd \<subseteq> fst ` set f
         \<and> (\<forall>tag \<in> set search_tags. (\<exists>r \<in> set rs. accepted n r tag) \<longrightarrow> tag \<in> fst ` set f)"
  using assms
proof (induction rs arbitrary: fnd)
  case Nil
  then show ?case by simp
next
  case (Cons r rs)
  show ?case
  proof (cases "length r < n \<or> \<not> contains ''<?xml'' r")
    case True
    with Cons.prems have "process_runs n rs fnd = Inr f" by simp
    from Cons.IH [OF this Cons.prems(2)] True show ?thesis
      by (auto simp: accepted_def)
  next
    case False
    obtain b fnd' where st: "scan_tags search_tags r fnd = (b, fnd')" by force
    with False Cons.prems(1) have b: "b = False" and p: "process_runs n rs fnd' = Inr f"
      by (auto split: bool.splits)
    from scan_tags_complete [OF st [unfolded b] Cons.prems(2)]
    have c: "length fnd' < length search_tags" "fst ` set fnd \<subseteq> fst ` set fnd'"
      "\<forall>tag \<in> set search_tags. contains (CHR ''<'' # tag) r \<longrightarrow> tag \<in> fst ` set fnd'"
      by simp_all
    from Cons.IH [OF p c(1)] have l: "length f < length search_tags"
      and k1: "fst ` set fnd' \<subseteq> fst ` set f"
      and k2: "\<forall>tag \<in> set search_tags. (\<exists>r \<in> set rs. accepted n r tag) \<longrightarrow> tag \<in> fst ` set f"
      by simp_all
    have "tag \<in> fst ` set f"
      if t: "tag \<in> set search_tags" and a: "\<exists>r' \<in> set (r # rs). accepted n r' tag" for tag
    proof (cases "accepted n r tag")
      case True
      then have "contains (CHR ''<'' # tag) r" by (simp add: accepted_def)
      with c(3) t have "tag \<in> fst ` set fnd'" by blast
      with k1 show ?thesis by blast
    next
      case False
      with a have "\<exists>r' \<in> set rs. accepted n r' tag" by auto
      with k2 t show ?thesis by blast
    qed
    with l c(2) k1 show ?thesis by blast
  qed
qed

lemma get_xml_sections_runs:
  assumes "read_bytes e (full (storage img)) = Inr content"
  shows "get_xml_sections e img n =
           (case process_runs n (terminated_runs content) [] of
              Inl f \<Rightarrow> Inr f
            | Inr f \<Rightarrow> Inl ValueError)"
  using assms
  by (simp add: get_xml_sections_def read_loop_scan scan_chunk_runs terminated_runs_def
      split: sum.splits)

lemma sections_from_empty: "sections_from n R []"
  by (simp add: sections_from_def)

lemma both_tags:
  assumes "distinct (map fst fnd)" and "fst ` set fnd \<subseteq> set search_tags"
    and "length fnd = length search_tags"
  shows "set (map fst fnd) = set search_tags"
proof -
  from assms(1) have "card (set (map fst fnd)) = length (map fst fnd)"
    by (rule distinct_card)
  with assms(3) have "card (set (map fst fnd)) = card (set search_tags)"
    by (simp add: search_tags_def)
  with assms(2) show ?thesis
    by (intro card_subset_eq) auto
qed

text \<open>
  C3. The dict that \<open>_get_xml_sections\<close> returns has exactly the two tags, and each of its
  entries is a maximal run of printable characters that a non-printable character ends,
  of at least \<open>min_len\<close> characters, with the XML declaration and \<open><tag\<close> in it, cut
  after its last \<open>>\<close>. What follows in the file has no effect on the result, which is the
  same for every longer file. If the scan does not return the dict it raises ValueError,
  at the end of the file, and then one of the two tags has no such run; the loop ends on
  every file, being a total function.
\<close>

theorem get_xml_sections_scan:
  assumes "read_bytes e (full (storage img)) = Inr content"
  shows "(\<forall>fnd. get_xml_sections e img n = Inr fnd \<longrightarrow>
            distinct (map fst fnd) \<and> set (map fst fnd) = set search_tags
            \<and> (\<forall>tag frag. map_of fnd tag = Some frag \<longrightarrow>
                  (\<exists>r \<in> set (terminated_runs content).
                      n \<le> length r \<and> contains ''<?xml'' r \<and> contains (CHR ''<'' # tag) r
                      \<and> frag = take (nat (rfind (CHR ''>'') r + 1)) r))
            \<and> (\<forall>more. read_loop n (content @ more) [] [] = Inr fnd))
         \<and> (\<forall>err. get_xml_sections e img n = Inl err \<longrightarrow>
               err = ValueError
               \<and> (\<exists>tag \<in> set search_tags. \<forall>r \<in> set (terminated_runs content).
                     \<not> (n \<le> length r \<and> contains ''<?xml'' r \<and> contains (CHR ''<'' # tag) r)))"
proof (intro conjI allI impI)
  fix fnd
  assume "get_xml_sections e img n = Inr fnd"
  with get_xml_sections_runs [OF assms, of n]
  have p: "process_runs n (terminated_runs content) [] = Inl fnd"
    by (simp split: sum.splits)
  from process_runs_sound [OF p sections_from_empty subset_refl]
  have s: "sections_from n (set (terminated_runs content)) fnd"
    and l: "length fnd = length search_tags" by simp_all
  from s show "distinct (map fst fnd)" by (simp add: sections_from_def)
  from s l show "set (map fst fnd) = set search_tags"
    by (intro both_tags) (simp_all add: sections_from_def)
  show "\<exists>r \<in> set (terminated_runs content).
           n \<le> length r \<and> contains ''<?xml'' r \<and> contains (CHR ''<'' # tag) r
           \<and> frag = take (nat (rfind (CHR ''>'') r + 1)) r"
    if "map_of fnd tag = Some frag" for tag frag
    using s that unfolding sections_from_def accepted_def fragment_def by blast
  show "read_loop n (content @ more) [] [] = Inr fnd" for more
    using p
    by (simp add: read_loop_scan scan_chunk_runs runs_from_append process_runs_append
        terminated_runs_def)
next
  fix err
  assume "get_xml_sections e img n = Inl err"
  with get_xml_sections_runs [OF assms, of n]
  obtain f where p: "process_runs n (terminated_runs content) [] = Inr f" and e: "err = ValueError"
    by (auto split: sum.splits)
  from e show "err = ValueError" .
  from process_runs_complete [OF p] have l: "length f < length search_tags"
    and k: "\<forall>tag \<in> set search_tags. (\<exists>r \<in> set (terminated_runs content). accepted n r tag)
              \<longrightarrow> tag \<in> fst ` set f"
    by (simp_all add: search_tags_def)
  show "\<exists>tag \<in> set search_tags. \<forall>r \<in> set (terminated_runs content).
          \<not> (n \<le> length r \<and> contains ''<?xml'' r \<and> contains (CHR ''<'' # tag) r)"
  proof (rule ccontr)
    assume "\<not> ?thesis"
    with k have "set search_tags \<subseteq> fst ` set f"
      unfolding accepted_def by blast
    then have "card (set search_tags) \<le> card (fst ` set f)"
      by (intro card_mono) auto
    also have "\<dots> \<le> length f"
      by (metis card_image_le card_length le_trans List.finite_set)
    finally show False using l by (simp add: search_tags_def)
  qed
qed


lemma runs_from_run:
  "list_all printable r \<Longrightarrow> \<not> printable x \<Longrightarrow>
     runs_from acc (r @ x # rest) = (acc @ r) # runs_from [] rest"
  by (induction r arbitrary: acc) auto

lemma runs_from_tail: "list_all printable r \<Longrightarrow> runs_from acc r = []"
  by (induction r arbitrary: acc) auto

lemma printable_examples:
  "list_all printable ''junk''" "list_all printable ''zz''" "list_all printable ''tail''"
  "\<not> printable (CHR 0x00)" "\<not> printable (CHR 0x01)"
  by (simp_all add: printable_def)

lemma printable_frame: "list_all printable frame_fragment"
  by (simp add: frame_fragment_def printable_def)

lemma printable_image: "list_all printable image_fragment"
  by (simp add: image_fragment_def printable_def)

lemma runs_example:
  "terminated_runs example_oir_bytes = [''junk'', frame_run, image_fragment]"
proof -
  have fz: "list_all printable frame_run"
    using printable_frame printable_examples(2) by (simp add: frame_run_def)
  show ?thesis
    unfolding terminated_runs_def example_oir_bytes_def
    by (simp only: runs_from_run [OF printable_examples(1) printable_examples(4)]
        runs_from_run [OF fz printable_examples(5)]
        runs_from_run [OF printable_image printable_examples(4)]
        runs_from_tail [OF printable_examples(3)] append_Nil)
qed


lemma frame_run_facts:
  "100 \<le> length frame_run"
  "contains ''<?xml'' frame_run"
  "contains (CHR ''<'' # ''lsmframe:frameProperties'') frame_run"
  "\<not> contains (CHR ''<'' # ''lsmimage:imageProperties'') frame_run"
  "take (nat (rfind (CHR ''>'') frame_run + 1)) frame_run = frame_fragment"
  by (simp_all add: frame_run_def frame_fragment_def)

lemma image_run_facts:
  "100 \<le> length image_fragment"
  "contains ''<?xml'' image_fragment"
  "\<not> contains (CHR ''<'' # ''lsmframe:frameProperties'') image_fragment"
  "contains (CHR ''<'' # ''lsmimage:imageProperties'') image_fragment"
  "take (nat (rfind (CHR ''>'') image_fragment + 1)) image_fragment = image_fragment"
  by (simp_all add: image_fragment_def)

lemma process_runs_example:
  "process_runs 100 [''junk'', frame_run, image_fragment] [] = Inl example_found"
proof -
  have 1: "scan_tags search_tags frame_run [] =
             (False, [(''lsmframe:frameProperties'', frame_fragment)])"
    by (simp add: search_tags_def frame_run_facts Let_def)
  have 2: "scan_tags search_tags image_fragment [(''lsmframe:frameProperties'', frame_fragment)] =
             (True, example_found)"
    by (simp add: search_tags_def image_run_facts Let_def example_found_def)
  have j: "length ''junk'' < (100 :: nat)" by simp
  from frame_run_facts(1,2) image_run_facts(1,2) show ?thesis
    by (simp add: 1 2 j)
qed

lemma get_xml_sections_example:
  "get_xml_sections (example_oir_env []) example_oir 100 = Inr example_found"
proof -
  have "read_bytes (example_oir_env []) (full (storage example_oir)) = Inr example_oir_bytes"
    by (simp add: example_oir_env_def)
  from get_xml_sections_runs [OF this, of 100] show ?thesis
    by (simp add: runs_example process_runs_example del: process_runs.simps)
qed

theorem get_xml_sections_scan_witness:
  "get_xml_sections (example_oir_env []) example_oir 100 = Inr example_found
   \<and> (\<exists>r \<in> set (terminated_runs example_oir_bytes).
         100 \<le> length r \<and> contains ''<?xml'' r \<and> contains ''<lsmframe:frameProperties'' r
         \<and> frame_fragment = take (nat (rfind (CHR ''>'') r + 1)) r)
   \<and> read_loop 100 (example_oir_bytes @ ''more'') [] [] = Inr example_found"
proof -
  have h: "read_bytes (example_oir_env []) (full (storage example_oir)) = Inr example_oir_bytes"
    by (simp add: example_oir_env_def)
  have m: "map_of example_found ''lsmframe:frameProperties'' = Some frame_fragment"
    by (simp add: example_found_def)
  from get_xml_sections_scan [OF h, of 100] get_xml_sections_example m show ?thesis
    by blast
qed


section \<open>The common tile size\<close>


















lemma fragments_differ: "image_fragment \<noteq> frame_fragment"
  by (simp add: image_fragment_def frame_fragment_def)


















section \<open>A mosaic with a missing tile\<close>

lemma add_mosaic_loop_append:
  "add_mosaic_loop e base (pre @ rest) m lg =
     (case add_mosaic_loop e base pre m lg of
        (Inr (Completed m'), lg') \<Rightarrow> add_mosaic_loop e base rest m' lg'
      | other \<Rightarrow> other)"
  by (induction pre arbitrary: m lg)
     (auto simp: Let_def split: sum.splits prod.splits loop_result.splits)

lemma add_mosaic_loop_cancel:
  assumes name: "Filename img = Inr f"
    and suffix: "drop (length f - 3) f = ''oif'' \<or> drop (length f - 3) f = ''oib''"
    and missing: "(if drop (length f - 3) f = ''oif'' then ImageDataOIF_init e (base @ f) lg
                   else ImageDataOIB_init e (base @ f) lg) = (Inl IOError, lg')"
  shows "add_mosaic_loop e base (img # post) m lg = (Inr (Cancelled f), lg')"
proof -
  have "subvol_try e base (if drop (length f - 3) f = ''oif'' then ImageDataOIF else ImageDataOIB)
          img f m lg = (Inl IOError, lg')"
    using missing by (simp add: subvol_try_def split: if_splits)
  with name suffix show ?thesis
    by (auto simp: Let_def)
qed

text \<open>
  C4. In \<open>FluoViewMosaic.add_mosaic\<close>, when the tiles before a tile were all added and the
  constructor of that tile's dataset raises IOError, the experiment is returned as it was:
  no mosaic is added for this subtree, whatever tiles had been collected. Two warnings are
  logged, the second one with the file name of that tile, and \<open>add_mosaics\<close> goes on with
  the next subtree.
\<close>

theorem add_mosaic_cancelled:
  assumes head: "add_mosaic_head e tree (- 1) ex lg = Inr (index, m0, lg0)"
    and tiles: "ImageInfo tree = pre @ img # post"
    and before: "add_mosaic_loop e (path (infile ex)) pre m0 lg0 = (Inr (Completed m1), lg1)"
    and name: "Filename img = Inr f"
    and suffix: "drop (length f - 3) f = ''oif'' \<or> drop (length f - 3) f = ''oib''"
    and missing: "(if drop (length f - 3) f = ''oif''
                   then ImageDataOIF_init e (path (infile ex) @ f) lg1
                   else ImageDataOIB_init e (path (infile ex) @ f) lg1) = (Inl IOError, lg2)"
  shows "FluoViewMosaic_add_mosaic e tree (- 1) ex lg =
           (None, ex,
            lg2 @ [(WARN, ''Mosaic %s: incomplete subvolumes, SKIPPING!'', [AInt index]),
                   (WARN, ''First incomplete/missing subvolume: %s'', [AStr f])])
         \<and> (\<forall>trees. FluoViewMosaic_add_mosaics e (tree # trees) ex lg =
               FluoViewMosaic_add_mosaics e trees ex
                 (lg2 @ [(WARN, ''Mosaic %s: incomplete subvolumes, SKIPPING!'', [AInt index]),
                         (WARN, ''First incomplete/missing subvolume: %s'', [AStr f])]))"
proof -
  from add_mosaic_loop_cancel [OF name suffix missing]
  have "add_mosaic_loop e (path (infile ex)) (img # post) m1 lg1 = (Inr (Cancelled f), lg2)" .
  with before tiles
  have "add_mosaic_loop e (path (infile ex)) (ImageInfo tree) m0 lg0 = (Inr (Cancelled f), lg2)"
    by (simp add: add_mosaic_loop_append)
  with head have a: "FluoViewMosaic_add_mosaic e tree (- 1) ex lg =
           (None, ex,
            lg2 @ [(WARN, ''Mosaic %s: incomplete subvolumes, SKIPPING!'', [AInt index]),
                   (WARN, ''First incomplete/missing subvolume: %s'', [AStr f])])"
    by (simp add: FluoViewMosaic_add_mosaic_def)
  then show ?thesis by simp
qed

lemma path_MATL: "path (posix_parse_path ''/data/MATL_Mosaic.log'') = ''/data/''"
proof -
  have b: "basename ''/data/MATL_Mosaic.log'' = ''MATL_Mosaic.log''"
    by (simp add: basename_def)
  have d: "dirname ''/data/MATL_Mosaic.log'' = ''/data''"
    by (simp add: dirname_def b Let_def)
  have m: "map (\<lambda>c. if c = CHR 0x5C then CHR ''/'' else c) ''/data/MATL_Mosaic.log''
             = ''/data/MATL_Mosaic.log''"
    by simp
  show ?thesis
    unfolding posix_parse_path_def Let_def m d
    by simp
qed

lemma example_experiment_fields:
  "path (infile example_experiment) = ''/data/''"
  "orig (infile example_experiment) = ''/data/MATL_Mosaic.log''"
  using path_MATL by (simp_all add: example_experiment_def posix_parse_path_def Let_def)

lemma example_oif_env_fields:
  "exists example_oif_env p = (p = ''/data/Slide1sec001/Slide1sec001.oif'')"
  "parse_path example_oif_env = posix_parse_path"
  "read_utf16 example_oif_env p = Inr ''[Version Info]''"
  "readfp example_oif_env t c = Inr example_config"
  "int_of_text example_oif_env = decimal"
  by (simp_all add: example_oif_env_def example_env_def)

lemma add_mosaic_head_example:
  "add_mosaic_head example_oif_env example_tree (- 1) example_experiment [] =
     Inr (1, example_mosaic\<lparr>supplement := [(''index'', SInt 1)], dim := (2, 1, 1),
                             overlap := 10, overlap_units := ''pct''\<rparr>, [])"
  by (simp add: add_mosaic_head_def ebind_def example_tree_def example_experiment_fields
      MosaicDataCuboid_init_def MosaicData_init_def DataSet_init_def example_oif_env_fields
      set_overlap_def supplement_setitem_def example_mosaic_def Let_def)

lemma first_tile_example:
  \<open>\<exists>m1. add_mosaic_loop example_oif_env ''/data/''
           [\<lparr>Filename = Inr ''Slide1sec001/Slide1sec001.oif'', XPos = Inr 10, YPos = Inr 20,
             Xno = Inr 0, Yno = Inr 0, No = Inr 0\<rparr>]
           (example_mosaic\<lparr>supplement := [(''index'', SInt 1)], dim := (2, 1, 1),
                           overlap := 10, overlap_units := ''pct''\<rparr>) [] =
         (Inr (Completed m1), [(WARN, ''WARNING: couldn't find Z axis in metadata!'', [])])
       \<and> length (subvol m1) = 1\<close>
  by (simp add: subvol_try_def ImageDataOIF_init_def ImageDataOlympus_init_def DataSet_init_def
      validate_filepath_def full_posix_parse_path example_oif_env_fields setup_parser_OIF_def
      ebind_def get_overlap_def example_mosaic_def set_relpos_def get_dimensions_def
      parse_dimensions_def parse_dimensions_Olympus_def get_all_example_config check_axis_def
      py_int_def decimal_examples dims_item_def getitem_def tileno_xy_def set_tilenumbers_def
      set_stagecoords_def supplement_setitem_def add_subvol_def Let_def)

lemma orig_ext_posix_parse_path:
  "orig (posix_parse_path p) = p"
  "ext (posix_parse_path p) =
     splitext_ext (basename (map (\<lambda>c. if c = CHR 0x5C then CHR ''/'' else c) p))"
  by (simp_all add: posix_parse_path_def Let_def)

lemma missing_example:
  "ImageDataOIF_init example_oif_env (''/data/'' @ ''Slide1sec002/Slide1sec002.oif'') lg = (Inl IOError, lg)"
proof -
  have b: "basename ''/data/Slide1sec002/Slide1sec002.oif'' = ''Slide1sec002.oif''"
    by (simp add: basename_def)
  have x: "splitext_ext ''Slide1sec002.oif'' = ''.oif''"
    by (simp add: splitext_ext_def Let_def)
  have x': "ext (posix_parse_path ''/data/Slide1sec002/Slide1sec002.oif'') = ''.oif''"
    by (simp add: orig_ext_posix_parse_path b x)
  have r: "py_replace ''.oif'' ''_01.oif'' ''/data/Slide1sec002/Slide1sec002.oif''
             = ''/data/Slide1sec002/Slide1sec002_01.oif''"
    by (simp add: py_replace_Nil py_replace_match py_replace_skip)
  have "validate_filepath example_oif_env
          ((posix_parse_path ''/data/Slide1sec002/Slide1sec002.oif'')\<lparr>stype := Some ''tree''\<rparr>) = Inl IOError"
    by (simp add: validate_filepath_def example_oif_env_fields full_posix_parse_path
        orig_ext_posix_parse_path(1) x' r Let_def)
  then show ?thesis
    by (simp add: ImageDataOIF_init_def ImageDataOlympus_init_def DataSet_init_def
        example_oif_env_fields Let_def)
qed

theorem add_mosaic_cancelled_witness:
  \<open>FluoViewMosaic_add_mosaic example_oif_env example_tree (- 1) example_experiment [] =
     (None, example_experiment,
      [(WARN, ''WARNING: couldn't find Z axis in metadata!'', []),
       (WARN, ''Mosaic %s: incomplete subvolumes, SKIPPING!'', [AInt 1]),
       (WARN, ''First incomplete/missing subvolume: %s'', [AStr ''Slide1sec002/Slide1sec002.oif''])])
   \<and> FluoViewMosaic_add_mosaics example_oif_env [example_tree] example_experiment [] =
     (None, example_experiment,
      [(WARN, ''WARNING: couldn't find Z axis in metadata!'', []),
       (WARN, ''Mosaic %s: incomplete subvolumes, SKIPPING!'', [AInt 1]),
       (WARN, ''First incomplete/missing subvolume: %s'', [AStr ''Slide1sec002/Slide1sec002.oif''])])\<close>
proof -
  have tiles: "ImageInfo example_tree =
      [\<lparr>Filename = Inr ''Slide1sec001/Slide1sec001.oif'', XPos = Inr 10, YPos = Inr 20,
            Xno = Inr 0, Yno = Inr 0, No = Inr 0\<rparr>]
         @ \<lparr>Filename = Inr ''Slide1sec002/Slide1sec002.oif'', XPos = Inr 100, YPos = Inr 20,
             Xno = Inr 1, Yno = Inr 0, No = Inr 1\<rparr> # []"
    by (simp add: example_tree_def)
  from first_tile_example obtain m1 where before:
    \<open>add_mosaic_loop example_oif_env (path (infile example_experiment))
           [\<lparr>Filename = Inr ''Slide1sec001/Slide1sec001.oif'', XPos = Inr 10, YPos = Inr 20,
             Xno = Inr 0, Yno = Inr 0, No = Inr 0\<rparr>]
           (example_mosaic\<lparr>supplement := [(''index'', SInt 1)], dim := (2, 1, 1),
                           overlap := 10, overlap_units := ''pct''\<rparr>) [] =
         (Inr (Completed m1), [(WARN, ''WARNING: couldn't find Z axis in metadata!'', [])])\<close>
    by (auto simp: example_experiment_fields)
  have name: "Filename \<lparr>Filename = Inr ''Slide1sec002/Slide1sec002.oif'', XPos = Inr 100, YPos = Inr 20,
             Xno = Inr 1, Yno = Inr 0, No = Inr 1\<rparr> = Inr ''Slide1sec002/Slide1sec002.oif''"
    by simp
  have suffix: "drop (length ''Slide1sec002/Slide1sec002.oif'' - 3) ''Slide1sec002/Slide1sec002.oif'' = ''oif''
      \<or> drop (length ''Slide1sec002/Slide1sec002.oif'' - 3) ''Slide1sec002/Slide1sec002.oif'' = ''oib''"
    by simp
  have missing: \<open>(if drop (length ''Slide1sec002/Slide1sec002.oif'' - 3) ''Slide1sec002/Slide1sec002.oif'' = ''oif''
      then ImageDataOIF_init example_oif_env (path (infile example_experiment) @ ''Slide1sec002/Slide1sec002.oif'')
             [(WARN, ''WARNING: couldn't find Z axis in metadata!'', [])]
      else ImageDataOIB_init example_oif_env (path (infile example_experiment) @ ''Slide1sec002/Slide1sec002.oif'')
             [(WARN, ''WARNING: couldn't find Z axis in metadata!'', [])])
      = (Inl IOError, [(WARN, ''WARNING: couldn't find Z axis in metadata!'', [])])\<close>
    using missing_example by (simp add: example_experiment_fields)
  from add_mosaic_cancelled [OF add_mosaic_head_example tiles before name suffix missing]
  show ?thesis by simp
qed


end
